theory Spec2Isabelle
  imports Complex_Main "HOL-Library.AList"
begin

text \<open>
  A model of the path of a location report: the datagram listener with its validator
  and the INSERT it issues (udpService.js, locationController.js, locationModel.js),
  the registry of sessions with its broadcast, keepalive and reaper
  (socketService.js), and the hook through which a client holds its connection
  (useSocket.js). A handler is a function from the state it finds to the state it
  leaves and the list of its effects on the outside; what the outside answers (the
  decoded text of a datagram, the result of a query, the clock, the events of a
  socket) is an argument.
\<close>

section \<open>JavaScript values\<close>

text \<open>
  The numbers a decoded datagram can hold: \<open>JSON.parse\<close> yields a finite double, or an
  infinity for a literal that overflows (\<open>1e999\<close>); JSON has no literal for NaN. A finite
  double is a rational number and the comparisons of the validator are exact on it.
\<close>

datatype jsnum = NegInf | Fin rat | PosInf

fun num_less :: "jsnum \<Rightarrow> jsnum \<Rightarrow> bool" where
  "num_less (Fin a) (Fin b) = (a < b)"
| "num_less NegInf NegInf = False"
| "num_less NegInf _ = True"
| "num_less _ NegInf = False"
| "num_less PosInf _ = False"
| "num_less _ PosInf = True"

text \<open>
  A value: what \<open>JSON.parse\<close> returns, and \<open>Undefined\<close> for the read of a property
  that is not there. An object is the list of its own properties, looked up by name.
\<close>

datatype jsval =
    Undefined
  | Null
  | Bool bool
  | Num jsnum
  | Str string
  | Arr "jsval list"
  | Obj "(string \<times> jsval) list"

datatype js_error = SyntaxError | TypeError | StorageFailure

text \<open>
  \<open>data[field]\<close>: reading a property of \<open>null\<close> or \<open>undefined\<close> throws a TypeError; a
  number, boolean, string or array has none of the properties read in this program, so
  the read gives \<open>undefined\<close>.
\<close>

fun get_prop :: "jsval \<Rightarrow> string \<Rightarrow> js_error + jsval" where
  "get_prop Undefined f = Inl TypeError"
| "get_prop Null f = Inl TypeError"
| "get_prop (Obj ps) f = Inr (case map_of ps f of None \<Rightarrow> Undefined | Some v \<Rightarrow> v)"
| "get_prop _ f = Inr Undefined"

fun is_number :: "jsval \<Rightarrow> bool" where
  "is_number (Num n) = True"
| "is_number _ = False"

text \<open>\<open>v < c\<close> and \<open>v > c\<close> for a value already known to be a number.\<close>

fun val_less :: "jsval \<Rightarrow> rat \<Rightarrow> bool" where
  "val_less (Num n) c = num_less n (Fin c)"
| "val_less _ c = False"

fun val_greater :: "jsval \<Rightarrow> rat \<Rightarrow> bool" where
  "val_greater (Num n) c = num_less (Fin c) n"
| "val_greater _ c = False"

text \<open>The values that \<open>||\<close> treats as true.\<close>

fun truthy :: "jsval \<Rightarrow> bool" where
  "truthy Undefined = False"
| "truthy Null = False"
| "truthy (Bool b) = b"
| "truthy (Num n) = (n \<noteq> Fin 0)"
| "truthy (Str s) = (s \<noteq> [])"
| "truthy (Arr xs) = True"
| "truthy (Obj ps) = True"

definition or_null :: "jsval \<Rightarrow> jsval" where
  "or_null v = (if truthy v then v else Null)"

section \<open>The validator (udpService.js)\<close>

text \<open>
  The loop over \<open>requiredFields\<close>: the first field that is undefined or null ends the
  validation with \<open>false\<close>; a read that throws ends it with the error.
\<close>

fun required_present :: "jsval \<Rightarrow> string list \<Rightarrow> js_error + bool" where
  "required_present d [] = Inr True"
| "required_present d (f # fs) =
     (case get_prop d f of
        Inl e \<Rightarrow> Inl e
      | Inr v \<Rightarrow> if v = Undefined \<or> v = Null then Inr False else required_present d fs)"

definition requiredFields :: "string list" where
  "requiredFields = [''lat'', ''lon'', ''time'']"

text \<open>A property read after the loop has passed: the payload is then neither null nor undefined.\<close>

definition field :: "jsval \<Rightarrow> string \<Rightarrow> jsval" where
  "field d f = (case get_prop d f of Inl e \<Rightarrow> Undefined | Inr v \<Rightarrow> v)"

definition validateLocationData :: "jsval \<Rightarrow> js_error + bool" where
  "validateLocationData d =
     (case required_present d requiredFields of
        Inl e \<Rightarrow> Inl e
      | Inr False \<Rightarrow> Inr False
      | Inr True \<Rightarrow>
          if \<not> is_number (field d ''lat'') \<or> \<not> is_number (field d ''lon'') then Inr False
          else if \<not> is_number (field d ''time'') then Inr False
          else if val_less (field d ''lat'') (-90) \<or> val_greater (field d ''lat'') 90 then Inr False
          else if val_less (field d ''lon'') (-180) \<or> val_greater (field d ''lon'') 180 then Inr False
          else Inr True)"

section \<open>The persistence gateway (locationModel.js, locationController.js)\<close>

text \<open>The seven parameters bound to the INSERT statement, in order.\<close>

definition create_values :: "jsval \<Rightarrow> jsval list" where
  "create_values locationData =
     [field locationData ''lat'',
      field locationData ''lon'',
      field locationData ''time'',
      or_null (field locationData ''acc''),
      or_null (field locationData ''alt''),
      or_null (field locationData ''spd''),
      or_null (field locationData ''prov'')]"

text \<open>
  The storage engine is outside the program: \<open>pool.query\<close> either throws or returns
  the rows of \<open>RETURNING *\<close>. \<open>create\<close> returns \<open>result.rows[0]\<close>, which is
  \<open>undefined\<close> on an empty list, and rethrows an error; \<open>createLocation\<close> does the same.
\<close>

type_synonym query_result = "js_error + jsval list"

definition create :: "query_result \<Rightarrow> js_error + jsval" where
  "create res = (case res of Inl e \<Rightarrow> Inl e | Inr rows \<Rightarrow> Inr (case rows of [] \<Rightarrow> Undefined | r # _ \<Rightarrow> r))"

definition createLocation :: "query_result \<Rightarrow> js_error + jsval" where
  "createLocation res = (case create res of Inl e \<Rightarrow> Inl e | Inr newLocation \<Rightarrow> Inr newLocation)"

section \<open>The connection registry and broadcast hub (socketService.js)\<close>

type_synonym sid = string

text \<open>Instants are milliseconds since the epoch, the value of a \<open>Date\<close>.\<close>

type_synonym time = int

record client_info =
  connectedAt :: time
  lastActivity :: time

text \<open>
  \<open>connectedClients\<close> is the \<open>Map\<close> of the service, in insertion order. \<open>sockets\<close>
  stands for \<open>io.sockets.sockets\<close>, the sessions that socket.io holds open: \<open>io.emit\<close>
  delivers to each of them.
\<close>

record socket_service =
  connectedClients :: "(sid \<times> client_info) list"
  sockets :: "sid list"

text \<open>
  The payloads that the server sends. A \<open>time\<close> in a payload stands for the ISO text
  of that instant.
\<close>

datatype payload =
    ConnectionInfo sid time nat
  | ClientCountUpdate nat
  | LocationUpdate string jsval time nat
  | PongPayload time

text \<open>
  What a handler does to the outside: an INSERT handed to the pool with its parameters,
  an event delivered to one session, the forced close of a session's connection.
  Console output is not recorded.
\<close>

datatype effect =
    Query "jsval list"
  | Emit sid string payload
  | Close sid

definition io_emit :: "socket_service \<Rightarrow> string \<Rightarrow> payload \<Rightarrow> effect list" where
  "io_emit st eventName p = map (\<lambda>s. Emit s eventName p) (sockets st)"

definition size_clients :: "socket_service \<Rightarrow> nat" where
  "size_clients st = length (connectedClients st)"

text \<open>
  The \<open>connection\<close> handler. socket.io has entered the new socket in its registry
  before the handler runs. Here and below, the reads of the clock within one run of a
  handler are taken as the one instant \<open>now\<close>.
\<close>

definition on_connection :: "socket_service \<Rightarrow> time \<Rightarrow> sid \<Rightarrow> socket_service \<times> effect list" where
  "on_connection st0 now socket_id =
     (let st1 = st0\<lparr>sockets := sockets st0 @ [socket_id]\<rparr>;
          st2 = st1\<lparr>connectedClients :=
                  AList.update socket_id \<lparr>connectedAt = now, lastActivity = now\<rparr> (connectedClients st1)\<rparr>
      in (st2,
          Emit socket_id ''connection-info'' (ConnectionInfo socket_id now (size_clients st2))
          # io_emit st2 ''client-count-update'' (ClientCountUpdate (size_clients st2))))"

text \<open>The \<open>ping\<close> handler.\<close>

definition on_ping :: "socket_service \<Rightarrow> time \<Rightarrow> sid \<Rightarrow> socket_service \<times> effect list" where
  "on_ping st now socket_id =
     (let st' = (if map_of (connectedClients st) socket_id \<noteq> None
                 then st\<lparr>connectedClients :=
                        AList.map_entry socket_id (\<lambda>info. info\<lparr>lastActivity := now\<rparr>) (connectedClients st)\<rparr>
                 else st)
      in (st', [Emit socket_id ''pong'' (PongPayload now)]))"

text \<open>
  The \<open>disconnect\<close> handler. socket.io has taken the socket out of its registry before
  the handler runs.
\<close>

definition on_disconnect :: "socket_service \<Rightarrow> sid \<Rightarrow> socket_service \<times> effect list" where
  "on_disconnect st0 socket_id =
     (let st1 = st0\<lparr>sockets := removeAll socket_id (sockets st0)\<rparr>;
          st2 = st1\<lparr>connectedClients := AList.delete socket_id (connectedClients st1)\<rparr>
      in (st2, io_emit st2 ''client-count-update'' (ClientCountUpdate (size_clients st2))))"

definition broadcastNewLocation :: "socket_service \<Rightarrow> time \<Rightarrow> jsval \<Rightarrow> effect list" where
  "broadcastNewLocation st now locationData =
     io_emit st ''location-update''
       (LocationUpdate ''new-location'' locationData now (size_clients st))"

text \<open>
  \<open>socket.disconnect(true)\<close> closes the connection and raises the socket's
  \<open>disconnect\<close> event at once, so the handler above runs inside the call.
\<close>

definition socket_disconnect :: "socket_service \<Rightarrow> sid \<Rightarrow> socket_service \<times> effect list" where
  "socket_disconnect st socket_id =
     (case on_disconnect st socket_id of (st', effs) \<Rightarrow> (st', Close socket_id # effs))"

text \<open>
  The age of an entry in minutes, as the exact quotient. The code computes it in
  doubles: the difference of the two instants is exact as long as it stays below
  \<open>2^53\<close> milliseconds, and the division rounds. The reaper compares the quotient with
  a threshold that is taken here in whole minutes, as the default of 30 is; against
  such a threshold the rounded quotient and the exact one compare alike (lemma
  \<open>rounded_quotient_agrees\<close>). A threshold with a fraction of a minute is outside the
  model: there the rounding can decide the comparison.
\<close>

definition inactiveMinutes :: "time \<Rightarrow> client_info \<Rightarrow> rat" where
  "inactiveMinutes now clientInfo = of_int (now - lastActivity clientInfo) / (1000 * 60)"

text \<open>
  The loop of the reaper over the entries of the map. The only entry it deletes while
  iterating is the one it is visiting, so it visits the entries present at the start.
  The accumulator is the service, the effects so far and \<open>cleaned\<close>.
\<close>

fun cleanup_loop ::
  "time \<Rightarrow> nat \<Rightarrow> (sid \<times> client_info) list \<Rightarrow> socket_service \<times> effect list \<times> nat
     \<Rightarrow> socket_service \<times> effect list \<times> nat" where
  "cleanup_loop now maxInactiveMinutes [] acc = acc"
| "cleanup_loop now maxInactiveMinutes ((clientId, clientInfo) # entries) (st, effs, cleaned) =
     (if inactiveMinutes now clientInfo > of_nat maxInactiveMinutes
      then
        (let (st1, e1) = (if clientId \<in> set (sockets st) then socket_disconnect st clientId
                          else (st, []));
             st2 = st1\<lparr>connectedClients := AList.delete clientId (connectedClients st1)\<rparr>
         in cleanup_loop now maxInactiveMinutes entries (st2, effs @ e1, cleaned + 1))
      else cleanup_loop now maxInactiveMinutes entries (st, effs, cleaned))"

definition cleanupInactiveConnections ::
  "socket_service \<Rightarrow> time \<Rightarrow> nat \<Rightarrow> socket_service \<times> effect list \<times> nat" where
  "cleanupInactiveConnections st now maxInactiveMinutes =
     cleanup_loop now maxInactiveMinutes (connectedClients st) (st, [], 0)"

section \<open>The datagram listener (udpService.js)\<close>

text \<open>
  The \<open>message\<close> handler up to its \<open>await\<close>. The datagram is given by what
  \<open>JSON.parse\<close> makes of it: the SyntaxError it throws, or the value. The result is the
  error thrown, \<open>None\<close> for the early return on an invalid payload, or the payload whose
  INSERT is now issued.
\<close>

definition message_start :: "js_error + jsval \<Rightarrow> js_error + jsval option" where
  "message_start parsed =
     (case parsed of
        Inl e \<Rightarrow> Inl e
      | Inr locationData \<Rightarrow>
          (case validateLocationData locationData of
             Inl e \<Rightarrow> Inl e
           | Inr valid \<Rightarrow> if \<not> valid then Inr None else Inr (Some locationData)))"

definition frontendData :: "jsval \<Rightarrow> jsval" where
  "frontendData savedLocation =
     Obj [(''id'', field savedLocation ''id''),
          (''latitude'', field savedLocation ''latitude''),
          (''longitude'', field savedLocation ''longitude''),
          (''timestamp_value'', field savedLocation ''timestamp_value''),
          (''created_at'', field savedLocation ''created_at'')]"

text \<open>
  The handler after the \<open>await\<close>: \<open>st\<close> is the socket service as it is when the INSERT
  has settled. The first read of \<open>savedLocation.id\<close> throws when the pool returned no row.
\<close>

definition message_resume :: "socket_service \<Rightarrow> time \<Rightarrow> query_result \<Rightarrow> js_error + effect list" where
  "message_resume st now res =
     (case createLocation res of
        Inl e \<Rightarrow> Inl e
      | Inr savedLocation \<Rightarrow>
          (case get_prop savedLocation ''id'' of
             Inl e \<Rightarrow> Inl e
           | Inr _ \<Rightarrow> Inr (broadcastNewLocation st now (frontendData savedLocation))))"

text \<open>
  A datagram with its surroundings: the decoded message, the answer of the pool to the
  INSERT, and the socket service and the clock when that answer arrives.
\<close>

record datagram =
  parsed :: "js_error + jsval"
  pool_query :: "jsval list \<Rightarrow> query_result"
  service :: socket_service
  clock :: time

text \<open>
  The whole handler: the \<open>try\<close> block and its \<open>catch\<close>, which logs the error and ends
  normally. The result is the effects and the error that leaves the handler, if any.
\<close>

definition on_message :: "datagram \<Rightarrow> effect list \<times> js_error option" where
  "on_message dg =
     (case message_start (parsed dg) of
        Inl e \<Rightarrow> ([], None)
      | Inr None \<Rightarrow> ([], None)
      | Inr (Some locationData) \<Rightarrow>
          (let vals = create_values locationData in
           case message_resume (service dg) (clock dg) (pool_query dg vals) of
             Inl e \<Rightarrow> ([Query vals], None)
           | Inr effs \<Rightarrow> (Query vals # effs, None)))"

text \<open>
  The listener over the datagrams it receives, in order: an error that left a handler
  would end the process, and the datagrams after it would not be handled.
\<close>

fun listener :: "datagram list \<Rightarrow> effect list \<times> js_error option" where
  "listener [] = ([], None)"
| "listener (dg # dgs) =
     (case on_message dg of
        (effs, Some e) \<Rightarrow> (effs, Some e)
      | (effs, None) \<Rightarrow> (case listener dgs of (effs', r) \<Rightarrow> (effs @ effs', r)))"

fun is_query :: "effect \<Rightarrow> bool" where
  "is_query (Query vs) = True"
| "is_query _ = False"

fun is_emit :: "effect \<Rightarrow> bool" where
  "is_emit (Emit s n p) = True"
| "is_emit _ = False"

section \<open>The client hook (useSocket.js)\<close>

text \<open>
  The state of the hook: the five \<open>useState\<close> cells. \<open>connectionStatus\<close> holds one of
  the texts \<open>disconnected\<close>, \<open>connecting\<close>, \<open>connected\<close>, \<open>error\<close>.
\<close>

record hook_state =
  isConnected :: bool
  connectionStatus :: string
  lastUpdate :: "time option"
  error :: jsval
  clientCount :: jsval

definition initial_hook_state :: hook_state where
  "initial_hook_state =
     \<lparr>isConnected = False, connectionStatus = ''disconnected'', lastUpdate = None,
      error = Null, clientCount = Num (Fin 0)\<rparr>"

text \<open>The options handed to the transport library.\<close>

definition reconnectionAttempts :: nat where
  "reconnectionAttempts = 5"

definition reconnectionDelay :: nat where
  "reconnectionDelay = 1000"

definition reconnectionDelayMax :: nat where
  "reconnectionDelayMax = 5000"

text \<open>
  The event names for which \<open>createSocket\<close> registers a handler on the socket, with
  the argument the handler reads: the reason of a disconnect, the \<open>message\<close> of an
  error, the attempt number, the \<open>totalClients\<close> of a count.
\<close>

datatype socket_event =
    EvConnect
  | EvDisconnect string
  | EvConnectError jsval
  | EvReconnect nat
  | EvReconnectAttempt nat
  | EvReconnectError
  | EvReconnectFailed
  | EvConnectionInfo jsval
  | EvClientCountUpdate jsval
  | EvPong
  | EvError jsval

text \<open>What a handler of the hook asks of the socket.\<close>

datatype client_effect =
    SocketEmit string jsval
  | SocketConnect

definition or_default :: "jsval \<Rightarrow> jsval \<Rightarrow> jsval" where
  "or_default v d = (if truthy v then v else d)"

definition msg_connect_error :: string where
  "msg_connect_error = ''Error de conexi'' @ [CHR 0xC3, CHR 0xB3] @ ''n''"

definition msg_reconnect_error :: string where
  "msg_reconnect_error = ''Error de reconexi'' @ [CHR 0xC3, CHR 0xB3] @ ''n''"

definition msg_reconnect_failed :: string where
  "msg_reconnect_failed = ''No se pudo reconectar al servidor''"

text \<open>The handlers that \<open>createSocket\<close> registers; \<open>now\<close> is \<open>Date.now()\<close>.\<close>

fun socket_handler :: "hook_state \<Rightarrow> time \<Rightarrow> socket_event \<Rightarrow> hook_state \<times> client_effect list" where
  "socket_handler h now EvConnect =
     (h\<lparr>isConnected := True, connectionStatus := ''connected'', error := Null,
        lastUpdate := Some now\<rparr>,
      [SocketEmit ''request-initial-data'' Undefined])"
| "socket_handler h now (EvDisconnect reason) =
     (h\<lparr>isConnected := False, connectionStatus := ''disconnected'', lastUpdate := Some now\<rparr>,
      if reason = ''io server disconnect'' then [SocketConnect] else [])"
| "socket_handler h now (EvConnectError message) =
     (h\<lparr>isConnected := False, connectionStatus := ''error'',
        error := or_default message (Str msg_connect_error), lastUpdate := Some now\<rparr>,
      [])"
| "socket_handler h now (EvReconnect attemptNumber) =
     (h\<lparr>isConnected := True, connectionStatus := ''connected'', error := Null,
        lastUpdate := Some now\<rparr>,
      [SocketEmit ''request-initial-data'' Undefined])"
| "socket_handler h now (EvReconnectAttempt attemptNumber) =
     (h\<lparr>connectionStatus := ''connecting''\<rparr>, [])"
| "socket_handler h now EvReconnectError =
     (h\<lparr>connectionStatus := ''error'', error := Str msg_reconnect_error\<rparr>, [])"
| "socket_handler h now EvReconnectFailed =
     (h\<lparr>connectionStatus := ''disconnected'', error := Str msg_reconnect_failed\<rparr>, [])"
| "socket_handler h now (EvConnectionInfo totalClients) =
     (h\<lparr>clientCount := or_default totalClients (Num (Fin 0))\<rparr>, [])"
| "socket_handler h now (EvClientCountUpdate totalClients) =
     (h\<lparr>clientCount := or_default totalClients (Num (Fin 0))\<rparr>, [])"
| "socket_handler h now EvPong = (h\<lparr>lastUpdate := Some now\<rparr>, [])"
| "socket_handler h now (EvError message) =
     (h\<lparr>error := or_default message (Str ''Error de socket'')\<rparr>, [])"

text \<open>The hook over a sequence of socket events, each with the clock at its arrival.\<close>

fun run_events :: "hook_state \<Rightarrow> (time \<times> socket_event) list \<Rightarrow> hook_state \<times> client_effect list" where
  "run_events h [] = (h, [])"
| "run_events h ((now, ev) # evs) =
     (case socket_handler h now ev of
        (h', effs) \<Rightarrow> (case run_events h' evs of (h'', effs') \<Rightarrow> (h'', effs @ effs')))"

text \<open>
  The socket object as the hook's own functions use it: its \<open>connected\<close> flag and the
  listeners of its emitter, in order of registration. A listener is known by its
  identity, as \<open>===\<close> compares functions. \<open>socket.on\<close> appends a listener;
  \<open>socket.off\<close> with an event name and a listener removes the first such
  registration, if there is one.
\<close>

type_synonym listener_id = nat

record client_socket =
  connected :: bool
  callbacks :: "(string \<times> listener_id) list"

definition socket_on :: "client_socket \<Rightarrow> string \<Rightarrow> listener_id \<Rightarrow> client_socket" where
  "socket_on sock eventName handler = sock\<lparr>callbacks := callbacks sock @ [(eventName, handler)]\<rparr>"

definition socket_off :: "client_socket \<Rightarrow> string \<Rightarrow> listener_id \<Rightarrow> client_socket" where
  "socket_off sock eventName handler = sock\<lparr>callbacks := remove1 (eventName, handler) (callbacks sock)\<rparr>"

text \<open>The two refs: \<open>socketRef.current\<close> (or null) and the map \<open>listenersRef.current\<close>.\<close>

record hook_refs =
  socketRef :: "client_socket option"
  listenersRef :: "(string \<times> listener_id) list"

definition emit :: "hook_refs \<Rightarrow> string \<Rightarrow> jsval \<Rightarrow> client_effect list \<times> bool" where
  "emit r eventName data =
     (case socketRef r of
        Some sock \<Rightarrow> if connected sock then ([SocketEmit eventName data], True) else ([], False)
      | None \<Rightarrow> ([], False))"

text \<open>
  The function that \<open>on\<close> returns: the closure over \<open>eventName\<close> and \<open>handler\<close>, or
  the empty function.
\<close>

datatype unsubscribe = Unsubscribe string listener_id | DoNothing

definition on :: "hook_refs \<Rightarrow> string \<Rightarrow> listener_id \<Rightarrow> hook_refs \<times> unsubscribe" where
  "on r eventName handler =
     (case socketRef r of
        Some sock \<Rightarrow>
          (let sock1 = (case map_of (listenersRef r) eventName of
                          Some oldHandler \<Rightarrow> socket_off sock eventName oldHandler
                        | None \<Rightarrow> sock);
               sock2 = socket_on sock1 eventName handler
           in (r\<lparr>socketRef := Some sock2,
                  listenersRef := AList.update eventName handler (listenersRef r)\<rparr>,
               Unsubscribe eventName handler))
      | None \<Rightarrow> (r, DoNothing))"

fun call_unsubscribe :: "hook_refs \<Rightarrow> unsubscribe \<Rightarrow> hook_refs" where
  "call_unsubscribe r DoNothing = r"
| "call_unsubscribe r (Unsubscribe eventName handler) =
     (case socketRef r of
        Some sock \<Rightarrow>
          r\<lparr>socketRef := Some (socket_off sock eventName handler),
             listenersRef := AList.delete eventName (listenersRef r)\<rparr>
      | None \<Rightarrow> r)"

text \<open>\<open>off\<close> of the hook, called with a listener.\<close>

definition off :: "hook_refs \<Rightarrow> string \<Rightarrow> listener_id \<Rightarrow> hook_refs" where
  "off r eventName handler =
     (case socketRef r of
        Some sock \<Rightarrow>
          (let r1 = r\<lparr>socketRef := Some (socket_off sock eventName handler)\<rparr>
           in if map_of (listenersRef r1) eventName = Some handler
              then r1\<lparr>listenersRef := AList.delete eventName (listenersRef r1)\<rparr>
              else r1)
      | None \<Rightarrow> r)"

text \<open>The listeners that the socket holds for an event name.\<close>

definition listeners_of :: "hook_refs \<Rightarrow> string \<Rightarrow> listener_id list" where
  "listeners_of r eventName =
     (case socketRef r of
        Some sock \<Rightarrow> map snd (filter (\<lambda>c. fst c = eventName) (callbacks sock))
      | None \<Rightarrow> [])"

section \<open>Vocabulary of the properties\<close>

subsection \<open>Reports\<close>

text \<open>
  A required field is missing when its read gives \<open>undefined\<close> or \<open>null\<close>; the read of
  a field of a payload that is itself \<open>null\<close> counts as \<open>undefined\<close> here. A number lies
  outside an interval when it is below the lower bound, above the upper bound, or
  infinite. An invalid report is one that misses a required field, has a required field
  that is not a number, or has a latitude or longitude outside its interval.
\<close>

definition missing :: "jsval \<Rightarrow> string \<Rightarrow> bool" where
  "missing d f = (field d f = Undefined \<or> field d f = Null)"

fun outside :: "jsval \<Rightarrow> rat \<Rightarrow> rat \<Rightarrow> bool" where
  "outside (Num (Fin x)) lo hi = (x < lo \<or> hi < x)"
| "outside (Num NegInf) lo hi = True"
| "outside (Num PosInf) lo hi = True"
| "outside _ lo hi = False"

definition invalid_report :: "jsval \<Rightarrow> bool" where
  "invalid_report d =
     (missing d ''lat'' \<or> missing d ''lon'' \<or> missing d ''time''
      \<or> \<not> is_number (field d ''lat'') \<or> \<not> is_number (field d ''lon'') \<or> \<not> is_number (field d ''time'')
      \<or> outside (field d ''lat'') (-90) 90 \<or> outside (field d ''lon'') (-180) 180)"

text \<open>The three ways in which the handling of a datagram fails.\<close>

definition decode_failure :: "datagram \<Rightarrow> bool" where
  "decode_failure dg = isl (parsed dg)"

definition validation_failure :: "datagram \<Rightarrow> bool" where
  "validation_failure dg =
     (case parsed dg of Inl e \<Rightarrow> False | Inr d \<Rightarrow> validateLocationData d \<noteq> Inr True)"

definition store_failure :: "datagram \<Rightarrow> bool" where
  "store_failure dg =
     (case parsed dg of
        Inl e \<Rightarrow> False
      | Inr d \<Rightarrow> validateLocationData d = Inr True \<and> isl (pool_query dg (create_values d)))"

subsection \<open>Sessions and deliveries\<close>

text \<open>
  The map of the service and the registry of socket.io agree when they hold the same
  sessions. Every handler of the service keeps them so (see \<open>registry_consistent_connection\<close>
  and the lemmas after it).
\<close>

definition registry_consistent :: "socket_service \<Rightarrow> bool" where
  "registry_consistent st = (set (sockets st) = fst ` set (connectedClients st))"

text \<open>The \<open>location-update\<close> that session \<open>s\<close> receives for a stored row.\<close>

definition location_update :: "socket_service \<Rightarrow> time \<Rightarrow> jsval \<Rightarrow> sid \<Rightarrow> effect" where
  "location_update st now row s =
     Emit s ''location-update'' (LocationUpdate ''new-location'' (frontendData row) now (size_clients st))"

fun is_location_update :: "effect \<Rightarrow> bool" where
  "is_location_update (Emit s n (LocationUpdate t d ts c)) = True"
| "is_location_update _ = False"

fun is_close :: "effect \<Rightarrow> bool" where
  "is_close (Close s) = True"
| "is_close _ = False"

definition delivered_columns :: "string list" where
  "delivered_columns = [''id'', ''latitude'', ''longitude'', ''timestamp_value'', ''created_at'']"

subsection \<open>The reaper\<close>

text \<open>
  An entry has expired at \<open>now\<close> when its last-activity age, in milliseconds, exceeds a
  threshold given in minutes.
\<close>

definition expired :: "time \<Rightarrow> nat \<Rightarrow> sid \<times> client_info \<Rightarrow> bool" where
  "expired now threshold entry = (now - lastActivity (snd entry) > int threshold * 60000)"

definition expired_keys :: "time \<Rightarrow> nat \<Rightarrow> (sid \<times> client_info) list \<Rightarrow> sid list" where
  "expired_keys now m es = map fst (filter (expired now m) es)"

text \<open>
  The ages of the sessions at \<open>now\<close> are exact when each is a number of milliseconds
  that a double holds exactly.
\<close>

definition exact_ages :: "time \<Rightarrow> socket_service \<Rightarrow> bool" where
  "exact_ages now st = (\<forall>e \<in> set (connectedClients st). \<bar>now - lastActivity (snd e)\<bar> < 2 ^ 53)"

text \<open>The body of the reaper's loop for an entry that has expired.\<close>

definition reap_one :: "socket_service \<Rightarrow> sid \<Rightarrow> socket_service \<times> effect list" where
  "reap_one st k =
     (let (st1, e1) = (if k \<in> set (sockets st) then socket_disconnect st k else (st, []))
      in (st1\<lparr>connectedClients := AList.delete k (connectedClients st1)\<rparr>, e1))"

subsection \<open>The client\<close>

definition socket_connected :: "hook_refs \<Rightarrow> bool" where
  "socket_connected r = (case socketRef r of Some sock \<Rightarrow> connected sock | None \<Rightarrow> False)"

text \<open>
  The map tracks the socket for an event name when the listeners that the socket holds
  for the name are the one of the map's entry, or none where the map has no entry.
\<close>

definition tracked :: "hook_refs \<Rightarrow> string \<Rightarrow> bool" where
  "tracked r eventName =
     (listeners_of r eventName
        = (case map_of (listenersRef r) eventName of Some handler \<Rightarrow> [handler] | None \<Rightarrow> []))"

text \<open>
  The events that reach the handlers. The hook imports \<open>io\<close> by name, which
  socket.io-client offers from version 3 on; there the socket raises \<open>connect\<close>,
  \<open>disconnect\<close> and \<open>connect_error\<close>, and the events that the server sends, while
  \<open>reconnect\<close>, \<open>reconnect_attempt\<close>, \<open>reconnect_error\<close> and \<open>reconnect_failed\<close> are
  raised on the manager only, so the handlers registered for them on the socket never
  run. A failed attempt to connect or to reconnect reaches the socket as
  \<open>connect_error\<close>.
\<close>

fun receivable :: "socket_event \<Rightarrow> bool" where
  "receivable (EvReconnect n) = False"
| "receivable (EvReconnectAttempt n) = False"
| "receivable EvReconnectError = False"
| "receivable EvReconnectFailed = False"
| "receivable _ = True"

definition initial_data_requests :: "client_effect list \<Rightarrow> nat" where
  "initial_data_requests effs = length (filter (\<lambda>e. e = SocketEmit ''request-initial-data'' Undefined) effs)"

text \<open>
  What the socket receives when the transport drops and the first \<open>k\<close> attempts to
  reconnect fail: the disconnect with its reason, then one \<open>connect_error\<close> for each
  failed attempt.
\<close>

definition drop_then_failures :: "string \<Rightarrow> jsval \<Rightarrow> nat \<Rightarrow> (time \<times> socket_event) list" where
  "drop_then_failures reason message k =
     (0, EvDisconnect reason) # replicate k (0, EvConnectError message)"

subsection \<open>Concrete inputs\<close>

text \<open>A report with latitude 95, and a report with all seven fields, its speed 0.\<close>

definition report_lat95 :: jsval where
  "report_lat95 = Obj [(''lat'', Num (Fin 95)), (''lon'', Num (Fin 0)), (''time'', Num (Fin 1700000000000))]"

definition report_ok :: jsval where
  "report_ok = Obj [(''lat'', Num (Fin 37.4219983)), (''lon'', Num (Fin (-122.084))),
                    (''time'', Num (Fin 1700000000000)), (''acc'', Num (Fin 5)),
                    (''alt'', Num (Fin 5)), (''spd'', Num (Fin 0)), (''prov'', Str ''fused'')]"

text \<open>Two rows as the storage engine returns them, equal on the five delivered columns.\<close>

definition stored_row :: jsval where
  "stored_row = Obj [(''id'', Num (Fin 7)), (''latitude'', Num (Fin 37.4219983)),
                     (''longitude'', Num (Fin (-122.084))), (''timestamp_value'', Num (Fin 1700000000000)),
                     (''accuracy'', Num (Fin 5)), (''altitude'', Num (Fin 5)), (''speed'', Null),
                     (''provider'', Str ''fused''), (''created_at'', Str ''2023-11-14T22:13:20.000Z'')]"

definition stored_row_other :: jsval where
  "stored_row_other = Obj [(''id'', Num (Fin 7)), (''latitude'', Num (Fin 37.4219983)),
                     (''longitude'', Num (Fin (-122.084))), (''timestamp_value'', Num (Fin 1700000000000)),
                     (''accuracy'', Num (Fin 99)), (''altitude'', Null), (''speed'', Num (Fin 3)),
                     (''provider'', Str ''gps''), (''created_at'', Str ''2023-11-14T22:13:20.000Z'')]"

text \<open>
  A service with two sessions, both open, and one with a third session whose connection
  socket.io no longer holds.
\<close>

definition two_sessions :: socket_service where
  "two_sessions =
     \<lparr>connectedClients = [(''a'', \<lparr>connectedAt = 0, lastActivity = 0\<rparr>),
                          (''b'', \<lparr>connectedAt = 5, lastActivity = 1000\<rparr>)],
      sockets = [''a'', ''b'']\<rparr>"

definition three_sessions :: socket_service where
  "three_sessions =
     \<lparr>connectedClients = [(''a'', \<lparr>connectedAt = 0, lastActivity = 0\<rparr>),
                          (''b'', \<lparr>connectedAt = 5, lastActivity = 1000\<rparr>),
                          (''c'', \<lparr>connectedAt = 9, lastActivity = 0\<rparr>)],
      sockets = [''a'', ''b'']\<rparr>"

text \<open>A datagram received while \<open>two_sessions\<close> is the service, with the pool's answer.\<close>

definition datagram_of :: "js_error + jsval \<Rightarrow> query_result \<Rightarrow> datagram" where
  "datagram_of p res = \<lparr>parsed = p, pool_query = (\<lambda>vals. res), service = two_sessions, clock = 2000\<rparr>"

definition connected_state :: hook_state where
  "connected_state =
     \<lparr>isConnected = True, connectionStatus = ''connected'', lastUpdate = Some 0,
      error = Null, clientCount = Num (Fin 1)\<rparr>"

definition fresh_refs :: hook_refs where
  "fresh_refs = \<lparr>socketRef = Some \<lparr>connected = True, callbacks = []\<rparr>, listenersRef = []\<rparr>"

text \<open>
  Subscribe listener 1, replace it by listener 2, call the unsubscribe function of
  listener 1, subscribe listener 3: the refs after the second, third and fourth step.
\<close>

definition stale_unsubscribe :: "hook_refs \<times> hook_refs \<times> hook_refs" where
  "stale_unsubscribe =
     (case on fresh_refs ''location-update'' 1 of (r1, u1) \<Rightarrow>
      case on r1 ''location-update'' 2 of (r2, u2) \<Rightarrow>
      case on (call_unsubscribe r2 u1) ''location-update'' 3 of (r4, u4) \<Rightarrow>
        (r2, call_unsubscribe r2 u1, r4))"

section \<open>Validation and the datagram pipeline\<close>

lemma get_prop_field:
  "d \<noteq> Undefined \<Longrightarrow> d \<noteq> Null \<Longrightarrow> get_prop d f = Inr (field d f)"
  by (cases d) (simp_all add: field_def)

lemma outside_iff:
  "is_number v \<Longrightarrow> outside v lo hi = (val_less v lo \<or> val_greater v hi)"
  apply (cases v; simp)
  subgoal for n by (cases n; simp)
  done

lemma required_present_fields:
  assumes "d \<noteq> Undefined" "d \<noteq> Null"
  shows "required_present d requiredFields =
           Inr (\<not> missing d ''lat'' \<and> \<not> missing d ''lon'' \<and> \<not> missing d ''time'')"
  using assms by (simp add: requiredFields_def get_prop_field missing_def)

lemma validate_throws:
  "d = Undefined \<or> d = Null \<Longrightarrow> validateLocationData d = Inl TypeError"
  by (auto simp: validateLocationData_def requiredFields_def)

lemma validate_object:
  assumes "d \<noteq> Undefined" "d \<noteq> Null"
  shows "validateLocationData d = Inr (\<not> invalid_report d)"
proof (cases "\<not> missing d ''lat'' \<and> \<not> missing d ''lon'' \<and> \<not> missing d ''time''")
  case False
  then show ?thesis
    using assms by (auto simp: validateLocationData_def required_present_fields invalid_report_def)
next
  case True
  then show ?thesis
    using assms
    by (auto simp: validateLocationData_def required_present_fields invalid_report_def outside_iff)
qed

text \<open>The validator passes exactly the reports that are not invalid.\<close>

lemma validate_True_iff:
  "validateLocationData d = Inr True \<longleftrightarrow> \<not> invalid_report d"
proof (cases "d = Undefined \<or> d = Null")
  case True
  then have "invalid_report d" by (auto simp: invalid_report_def missing_def field_def)
  with True show ?thesis by (simp add: validate_throws)
next
  case False
  then show ?thesis by (simp add: validate_object)
qed

lemma message_start_invalid:
  "validateLocationData d \<noteq> Inr True \<Longrightarrow> message_start (Inr d) = Inl TypeError \<or> message_start (Inr d) = Inr None"
  apply (cases "d = Undefined \<or> d = Null")
   apply (simp add: message_start_def validate_throws)
  apply (simp add: message_start_def validate_object)
  done

lemma on_message_invalid:
  "parsed dg = Inr d \<Longrightarrow> validateLocationData d \<noteq> Inr True \<Longrightarrow> on_message dg = ([], None)"
  using message_start_invalid[of d] by (auto simp: on_message_def)

text \<open>
  Claim C1. A decoded payload that lacks \<open>lat\<close>, \<open>lon\<close> or \<open>time\<close> (undefined or null),
  or in which one of them is not a number, or whose \<open>lat\<close> lies outside [-90, 90] or \<open>lon\<close>
  outside [-180, 180], does not pass the validator: the validator returns \<open>false\<close>, or
  throws on a payload that is itself \<open>null\<close>; the handler then issues no INSERT and emits
  nothing.
\<close>

theorem validator_rejects:
  assumes "invalid_report d" and "parsed dg = Inr d"
  shows "validateLocationData d = (if d = Undefined \<or> d = Null then Inl TypeError else Inr False)
         \<and> on_message dg = ([], None)"
proof -
  have v: "validateLocationData d = (if d = Undefined \<or> d = Null then Inl TypeError else Inr False)"
    using assms(1) by (simp add: validate_throws validate_object)
  then have "validateLocationData d \<noteq> Inr True" by (simp split: if_splits)
  with assms(2) have "on_message dg = ([], None)" by (simp add: on_message_invalid)
  with v show ?thesis by simp
qed

theorem validator_rejects_witness:
  "invalid_report report_lat95
   \<and> validateLocationData report_lat95 = Inr False
   \<and> on_message (datagram_of (Inr report_lat95) (Inr [stored_row])) = ([], None)"
proof -
  have i: "invalid_report report_lat95"
    by (simp add: invalid_report_def report_lat95_def field_def missing_def)
  have p: "parsed (datagram_of (Inr report_lat95) (Inr [stored_row])) = Inr report_lat95"
    by (simp add: datagram_of_def)
  show ?thesis
    using validator_rejects[OF i p] i by (simp add: report_lat95_def)
qed

lemma message_start_valid:
  "validateLocationData d = Inr True \<Longrightarrow> message_start (Inr d) = Inr (Some d)"
  by (simp add: message_start_def)

lemma message_resume_row:
  "message_resume st now (Inr (Obj cols # rows)) = Inr (broadcastNewLocation st now (frontendData (Obj cols)))"
  by (simp add: message_resume_def createLocation_def create_def)

lemma message_resume_error:
  "message_resume st now (Inl e) = Inl e"
  by (simp add: message_resume_def createLocation_def create_def)

lemma broadcast_eq:
  "broadcastNewLocation st now (frontendData row) = map (location_update st now row) (sockets st)"
  by (simp add: broadcastNewLocation_def io_emit_def location_update_def)

lemma on_message_stored:
  assumes "parsed dg = Inr d" "validateLocationData d = Inr True"
    and "pool_query dg (create_values d) = Inr (Obj cols # rows)"
  shows "on_message dg =
           (Query (create_values d) # map (location_update (service dg) (clock dg) (Obj cols)) (sockets (service dg)), None)"
  using assms by (simp add: on_message_def message_start_valid message_resume_row broadcast_eq)

lemma on_message_store_failed:
  assumes "parsed dg = Inr d" "validateLocationData d = Inr True"
    and "pool_query dg (create_values d) = Inl e"
  shows "on_message dg = ([Query (create_values d)], None)"
  using assms by (simp add: on_message_def message_start_valid message_resume_error)

lemma on_message_valid_queries:
  assumes "parsed dg = Inr d" "validateLocationData d = Inr True"
  shows "filter is_query (fst (on_message dg)) = [Query (create_values d)]"
proof -
  have "\<forall>e \<in> set (broadcastNewLocation st now v). \<not> is_query e" for st now v
    by (auto simp: broadcastNewLocation_def io_emit_def)
  then have b: "filter is_query (broadcastNewLocation st now v) = []" for st now v
    by (simp add: filter_empty_conv)
  show ?thesis
    using assms
    by (auto simp: on_message_def message_start_valid message_resume_def b Let_def
             split: sum.splits)
qed

lemma on_message_no_escape: "snd (on_message dg) = None"
  by (auto simp: on_message_def Let_def split: sum.splits option.splits)

lemma on_message_decode_failure: "parsed dg = Inl e \<Longrightarrow> on_message dg = ([], None)"
  by (simp add: on_message_def message_start_def)

lemma connection_no_location_update:
  "\<forall>e \<in> set (snd (on_connection st t s)). \<not> is_location_update e"
  by (auto simp: on_connection_def Let_def io_emit_def)

text \<open>
  Claim C2. For a valid payload the handler hands exactly one INSERT to the pool. When
  the pool returns the stored row, the handler emits one \<open>location-update\<close> to each
  session that socket.io holds at the moment the INSERT has settled, and to no other;
  the update carries the id, latitude, longitude, timestamp_value and created_at of the
  stored row, the instant of the broadcast and the number of sessions. Where the
  map of the service agrees with socket.io on the sessions, each session of the map
  receives it. A session connected later receives its \<open>connection-info\<close> and the count,
  never this update.
\<close>

theorem valid_report_stored_once_and_broadcast:
  assumes "parsed dg = Inr d" and "validateLocationData d = Inr True"
  shows "filter is_query (fst (on_message dg)) = [Query (create_values d)]
       \<and> (\<forall>cols rows. pool_query dg (create_values d) = Inr (Obj cols # rows) \<longrightarrow>
            filter is_emit (fst (on_message dg))
              = map (\<lambda>s. Emit s ''location-update''
                       (LocationUpdate ''new-location''
                          (Obj [(''id'', field (Obj cols) ''id''),
                                (''latitude'', field (Obj cols) ''latitude''),
                                (''longitude'', field (Obj cols) ''longitude''),
                                (''timestamp_value'', field (Obj cols) ''timestamp_value''),
                                (''created_at'', field (Obj cols) ''created_at'')])
                          (clock dg) (size_clients (service dg))))
                    (sockets (service dg))
          \<and> (registry_consistent (service dg) \<longrightarrow>
               (\<forall>s \<in> fst ` set (connectedClients (service dg)).
                  Emit s ''location-update''
                    (LocationUpdate ''new-location''
                       (Obj [(''id'', field (Obj cols) ''id''),
                             (''latitude'', field (Obj cols) ''latitude''),
                             (''longitude'', field (Obj cols) ''longitude''),
                             (''timestamp_value'', field (Obj cols) ''timestamp_value''),
                             (''created_at'', field (Obj cols) ''created_at'')])
                       (clock dg) (size_clients (service dg)))
                  \<in> set (fst (on_message dg))))
          \<and> (\<forall>s. s \<notin> set (sockets (service dg)) \<longrightarrow>
               (\<forall>e \<in> set (fst (on_message dg)). \<forall>n p. e \<noteq> Emit s n p)
               \<and> (\<forall>t. \<forall>e \<in> set (snd (on_connection (service dg) t s)). \<not> is_location_update e)))"
proof -
  have q: "filter is_query (fst (on_message dg)) = [Query (create_values d)]"
    using assms by (rule on_message_valid_queries)
  have u: "location_update st now (Obj cols) s
             = Emit s ''location-update''
                 (LocationUpdate ''new-location''
                    (Obj [(''id'', field (Obj cols) ''id''),
                          (''latitude'', field (Obj cols) ''latitude''),
                          (''longitude'', field (Obj cols) ''longitude''),
                          (''timestamp_value'', field (Obj cols) ''timestamp_value''),
                          (''created_at'', field (Obj cols) ''created_at'')])
                    now (size_clients st))" for st now cols s
    by (simp add: location_update_def frontendData_def)
  have "filter is_emit (fst (on_message dg))
              = map (location_update (service dg) (clock dg) (Obj cols)) (sockets (service dg))
          \<and> (registry_consistent (service dg) \<longrightarrow>
               (\<forall>s \<in> fst ` set (connectedClients (service dg)).
                  location_update (service dg) (clock dg) (Obj cols) s \<in> set (fst (on_message dg))))
          \<and> (\<forall>s. s \<notin> set (sockets (service dg)) \<longrightarrow>
               (\<forall>e \<in> set (fst (on_message dg)). \<forall>n p. e \<noteq> Emit s n p)
               \<and> (\<forall>t. \<forall>e \<in> set (snd (on_connection (service dg) t s)). \<not> is_location_update e))"
    if r: "pool_query dg (create_values d) = Inr (Obj cols # rows)" for cols rows
  proof -
    note m = on_message_stored[OF assms r]
    have e: "filter is_emit (map (location_update st now row) ss) = map (location_update st now row) ss"
      for st now row ss
      by (induction ss) (simp_all add: location_update_def)
    have 1: "filter is_emit (fst (on_message dg))
              = map (location_update (service dg) (clock dg) (Obj cols)) (sockets (service dg))"
      by (simp add: m e)
    have 2: "location_update (service dg) (clock dg) (Obj cols) s \<in> set (fst (on_message dg))"
      if "registry_consistent (service dg)" "s \<in> fst ` set (connectedClients (service dg))" for s
      using that by (simp add: m registry_consistent_def)
    have 3: "\<forall>e \<in> set (fst (on_message dg)). \<forall>n p. e \<noteq> Emit s n p"
      if "s \<notin> set (sockets (service dg))" for s
      using that by (auto simp: m location_update_def)
    show ?thesis
      using 1 2 3 connection_no_location_update by blast
  qed
  then show ?thesis
    unfolding u using q by blast
qed

theorem valid_report_witness:
  "validateLocationData report_ok = Inr True
   \<and> filter is_query (fst (on_message (datagram_of (Inr report_ok) (Inr [stored_row]))))
       = [Query [Num (Fin 37.4219983), Num (Fin (-122.084)), Num (Fin 1700000000000),
                 Num (Fin 5), Num (Fin 5), Null, Str ''fused'']]
   \<and> filter is_emit (fst (on_message (datagram_of (Inr report_ok) (Inr [stored_row]))))
       = [Emit ''a'' ''location-update''
            (LocationUpdate ''new-location''
               (Obj [(''id'', Num (Fin 7)), (''latitude'', Num (Fin 37.4219983)),
                     (''longitude'', Num (Fin (-122.084))),
                     (''timestamp_value'', Num (Fin 1700000000000)),
                     (''created_at'', Str ''2023-11-14T22:13:20.000Z'')])
               2000 2),
          Emit ''b'' ''location-update''
            (LocationUpdate ''new-location''
               (Obj [(''id'', Num (Fin 7)), (''latitude'', Num (Fin 37.4219983)),
                     (''longitude'', Num (Fin (-122.084))),
                     (''timestamp_value'', Num (Fin 1700000000000)),
                     (''created_at'', Str ''2023-11-14T22:13:20.000Z'')])
               2000 2)]
   \<and> Emit ''b'' ''location-update''
        (LocationUpdate ''new-location''
           (Obj [(''id'', Num (Fin 7)), (''latitude'', Num (Fin 37.4219983)),
                 (''longitude'', Num (Fin (-122.084))),
                 (''timestamp_value'', Num (Fin 1700000000000)),
                 (''created_at'', Str ''2023-11-14T22:13:20.000Z'')])
           2000 2)
       \<in> set (fst (on_message (datagram_of (Inr report_ok) (Inr [stored_row]))))"
proof -
  have v: "validateLocationData report_ok = Inr True"
    by (simp add: validateLocationData_def requiredFields_def field_def report_ok_def)
  have p: "parsed (datagram_of (Inr report_ok) (Inr [stored_row])) = Inr report_ok"
    by (simp add: datagram_of_def)
  have r: "pool_query (datagram_of (Inr report_ok) (Inr [stored_row])) (create_values report_ok)
             = Inr (Obj [(''id'', Num (Fin 7)), (''latitude'', Num (Fin 37.4219983)),
                     (''longitude'', Num (Fin (-122.084))), (''timestamp_value'', Num (Fin 1700000000000)),
                     (''accuracy'', Num (Fin 5)), (''altitude'', Num (Fin 5)), (''speed'', Null),
                     (''provider'', Str ''fused''), (''created_at'', Str ''2023-11-14T22:13:20.000Z'')] # [])"
    by (simp add: datagram_of_def stored_row_def)
  have c: "registry_consistent (service (datagram_of (Inr report_ok) (Inr [stored_row])))"
    by (simp add: registry_consistent_def datagram_of_def two_sessions_def)
  have b: "''b'' \<in> fst ` set (connectedClients (service (datagram_of (Inr report_ok) (Inr [stored_row]))))"
    by (simp add: datagram_of_def two_sessions_def)
  have cv: "create_values report_ok
              = [Num (Fin 37.4219983), Num (Fin (-122.084)), Num (Fin 1700000000000),
                 Num (Fin 5), Num (Fin 5), Null, Str ''fused'']"
    by (simp add: create_values_def field_def report_ok_def or_null_def)
  note t = valid_report_stored_once_and_broadcast[OF p v]
  from t have 1: "filter is_query (fst (on_message (datagram_of (Inr report_ok) (Inr [stored_row]))))
       = [Query [Num (Fin 37.4219983), Num (Fin (-122.084)), Num (Fin 1700000000000),
                 Num (Fin 5), Num (Fin 5), Null, Str ''fused'']]"
    unfolding cv by (rule conjunct1)
  note s = t[THEN conjunct2, THEN spec, THEN spec, THEN mp, OF r]
  have 2: "filter is_emit (fst (on_message (datagram_of (Inr report_ok) (Inr [stored_row]))))
       = [Emit ''a'' ''location-update''
            (LocationUpdate ''new-location''
               (Obj [(''id'', Num (Fin 7)), (''latitude'', Num (Fin 37.4219983)),
                     (''longitude'', Num (Fin (-122.084))),
                     (''timestamp_value'', Num (Fin 1700000000000)),
                     (''created_at'', Str ''2023-11-14T22:13:20.000Z'')])
               2000 2),
          Emit ''b'' ''location-update''
            (LocationUpdate ''new-location''
               (Obj [(''id'', Num (Fin 7)), (''latitude'', Num (Fin 37.4219983)),
                     (''longitude'', Num (Fin (-122.084))),
                     (''timestamp_value'', Num (Fin 1700000000000)),
                     (''created_at'', Str ''2023-11-14T22:13:20.000Z'')])
               2000 2)]"
    using s[THEN conjunct1]
    by (simp add: datagram_of_def two_sessions_def field_def size_clients_def)
  have 3: "Emit ''b'' ''location-update''
        (LocationUpdate ''new-location''
           (Obj [(''id'', Num (Fin 7)), (''latitude'', Num (Fin 37.4219983)),
                 (''longitude'', Num (Fin (-122.084))),
                 (''timestamp_value'', Num (Fin 1700000000000)),
                 (''created_at'', Str ''2023-11-14T22:13:20.000Z'')])
           2000 2)
       \<in> set (fst (on_message (datagram_of (Inr report_ok) (Inr [stored_row]))))"
    using s[THEN conjunct2, THEN conjunct1, THEN mp, OF c, THEN bspec, OF b]
    by (simp add: datagram_of_def two_sessions_def field_def size_clients_def numeral_2_eq_2)
  from v 1 2 3 show ?thesis by blast
qed

lemma listener_Cons:
  "listener (dg # dgs) = (fst (on_message dg) @ fst (listener dgs), snd (listener dgs))"
  using on_message_no_escape[of dg]
  by (cases "on_message dg"; cases "listener dgs") simp

lemma on_message_failure:
  assumes "decode_failure dg \<or> validation_failure dg \<or> store_failure dg"
  shows "on_message dg =
           (if store_failure dg then [Query (create_values (projr (parsed dg)))] else [], None)"
proof (cases "parsed dg")
  case (Inl e)
  then show ?thesis by (simp add: on_message_decode_failure store_failure_def)
next
  case (Inr d)
  show ?thesis
  proof (cases "validateLocationData d = Inr True")
    case False
    with Inr show ?thesis by (simp add: on_message_invalid store_failure_def)
  next
    case True
    with Inr assms obtain e where "pool_query dg (create_values d) = Inl e"
      by (auto simp: decode_failure_def validation_failure_def store_failure_def isl_def)
    with Inr True show ?thesis
      by (simp add: on_message_store_failed store_failure_def)
  qed
qed

text \<open>
  Claim C3. A datagram that fails to decode, fails validation, or whose INSERT fails, is
  dropped: nothing is emitted, the INSERT is issued once in the last case and not at all
  in the others, no error leaves the handler, and the listener goes on to the datagrams
  that follow, which are handled as they would have been without it.
\<close>

theorem failed_datagram_discarded:
  assumes "decode_failure dg \<or> validation_failure dg \<or> store_failure dg"
  shows "filter is_emit (fst (on_message dg)) = []
       \<and> filter is_query (fst (on_message dg))
           = (if store_failure dg then [Query (create_values (projr (parsed dg)))] else [])
       \<and> snd (on_message dg) = None
       \<and> listener (dg # dgs)
           = (filter is_query (fst (on_message dg)) @ fst (listener dgs), snd (listener dgs))"
  by (simp add: on_message_failure[OF assms] listener_Cons del: listener.simps)

theorem failed_datagram_witness:
  "store_failure (datagram_of (Inr report_ok) (Inl StorageFailure))
   \<and> fst (on_message (datagram_of (Inr report_ok) (Inl StorageFailure))) = [Query (create_values report_ok)]
   \<and> snd (on_message (datagram_of (Inr report_ok) (Inl StorageFailure))) = None
   \<and> listener [datagram_of (Inr report_ok) (Inl StorageFailure), datagram_of (Inr report_ok) (Inr [stored_row])]
       = (Query (create_values report_ok) # fst (listener [datagram_of (Inr report_ok) (Inr [stored_row])]),
          snd (listener [datagram_of (Inr report_ok) (Inr [stored_row])]))"
proof -
  have v: "validateLocationData report_ok = Inr True"
    by (simp add: validateLocationData_def requiredFields_def field_def report_ok_def)
  have s: "store_failure (datagram_of (Inr report_ok) (Inl StorageFailure))"
    by (simp add: store_failure_def datagram_of_def v)
  then have a: "decode_failure (datagram_of (Inr report_ok) (Inl StorageFailure))
      \<or> validation_failure (datagram_of (Inr report_ok) (Inl StorageFailure))
      \<or> store_failure (datagram_of (Inr report_ok) (Inl StorageFailure))"
    by simp
  have p: "projr (parsed (datagram_of (Inr report_ok) (Inl StorageFailure))) = report_ok"
    by (simp add: datagram_of_def)
  have e: "fst (on_message (datagram_of (Inr report_ok) (Inl StorageFailure))) = [Query (create_values report_ok)]"
    by (simp add: on_message_store_failed[where d=report_ok and e=StorageFailure] datagram_of_def v)
  from failed_datagram_discarded[OF a, of "[datagram_of (Inr report_ok) (Inr [stored_row])]"] s p e
  show ?thesis
    by (simp add: on_message_no_escape del: listener.simps)
qed

section \<open>What is stored and what is delivered\<close>

lemma create_values_nth:
  "create_values d ! 3 = or_null (field d ''acc'')"
  "create_values d ! 4 = or_null (field d ''alt'')"
  "create_values d ! 5 = or_null (field d ''spd'')"
  "create_values d ! 6 = or_null (field d ''prov'')"
  by (simp_all add: create_values_def)

lemma or_null_number: "or_null (Num n) = (if n = Fin 0 then Null else Num n)"
  by (simp add: or_null_def)

lemma or_null_string: "or_null (Str s) = (if s = [] then Null else Str s)"
  by (simp add: or_null_def)

text \<open>
  Claim C8. For a valid report the INSERT binds seven parameters, in the order of the
  columns latitude, longitude, timestamp_value, accuracy, altitude, speed, provider. An
  accuracy, altitude or speed equal to 0 is bound as null, and so is an empty provider;
  any other number, and any other provider text, is bound as supplied.
\<close>

theorem zero_and_empty_optionals_stored_as_null:
  assumes "parsed dg = Inr d" and "validateLocationData d = Inr True"
  shows "filter is_query (fst (on_message dg)) = [Query (create_values d)]
       \<and> length (create_values d) = 7
       \<and> (\<forall>(f, i) \<in> {(''acc'', 3), (''alt'', 4), (''spd'', 5)}.
            (field d f = Num (Fin 0) \<longrightarrow> create_values d ! i = Null)
            \<and> (\<forall>n. field d f = Num n \<and> n \<noteq> Fin 0 \<longrightarrow> create_values d ! i = Num n))
       \<and> (field d ''prov'' = Str [] \<longrightarrow> create_values d ! 6 = Null)
       \<and> (\<forall>s. field d ''prov'' = Str s \<and> s \<noteq> [] \<longrightarrow> create_values d ! 6 = Str s)"
proof -
  have q: "filter is_query (fst (on_message dg)) = [Query (create_values d)]"
    using assms by (rule on_message_valid_queries)
  have l: "length (create_values d) = 7"
    by (simp add: create_values_def)
  show ?thesis
    using q l by (simp add: create_values_nth or_null_number or_null_string)
qed

theorem zero_and_empty_optionals_witness:
  "validateLocationData report_ok = Inr True
   \<and> field report_ok ''spd'' = Num (Fin 0) \<and> create_values report_ok ! 5 = Null
   \<and> field report_ok ''acc'' = Num (Fin 5) \<and> create_values report_ok ! 3 = Num (Fin 5)
   \<and> field report_ok ''prov'' = Str ''fused'' \<and> create_values report_ok ! 6 = Str ''fused''
   \<and> filter is_query (fst (on_message (datagram_of (Inr report_ok) (Inr [stored_row]))))
       = [Query [Num (Fin 37.4219983), Num (Fin (-122.084)), Num (Fin 1700000000000),
                 Num (Fin 5), Num (Fin 5), Null, Str ''fused'']]"
proof -
  have v: "validateLocationData report_ok = Inr True"
    by (simp add: validateLocationData_def requiredFields_def field_def report_ok_def)
  have p: "parsed (datagram_of (Inr report_ok) (Inr [stored_row])) = Inr report_ok"
    by (simp add: datagram_of_def)
  have f: "field report_ok ''spd'' = Num (Fin 0)" "field report_ok ''acc'' = Num (Fin 5)"
    "field report_ok ''prov'' = Str ''fused''"
    by (simp_all add: field_def report_ok_def)
  have c: "create_values report_ok = [Num (Fin 37.4219983), Num (Fin (-122.084)), Num (Fin 1700000000000),
                 Num (Fin 5), Num (Fin 5), Null, Str ''fused'']"
    by (simp add: create_values_def field_def report_ok_def or_null_def)
  from zero_and_empty_optionals_stored_as_null[OF p v] v f c
  show ?thesis by simp
qed

lemma frontendData_cong:
  assumes "\<forall>k \<in> set delivered_columns. map_of cols' k = map_of cols k"
  shows "frontendData (Obj cols') = frontendData (Obj cols)"
  using assms by (simp add: frontendData_def field_def delivered_columns_def)

text \<open>
  Claim C9. The \<open>location-update\<close> sent for a stored row carries an object with exactly
  the properties id, latitude, longitude, timestamp_value and created_at of the row. The
  other columns of the row have no influence on anything the handler does: two rows that
  agree on these five columns give the same effects.
\<close>

theorem broadcast_carries_projection_only:
  assumes "parsed dg = Inr d" and "validateLocationData d = Inr True"
    and "pool_query dg (create_values d) = Inr (Obj cols # rows)"
  shows "filter is_emit (fst (on_message dg))
           = map (\<lambda>s. Emit s ''location-update''
                    (LocationUpdate ''new-location''
                       (Obj (map (\<lambda>k. (k, field (Obj cols) k)) delivered_columns))
                       (clock dg) (size_clients (service dg))))
                 (sockets (service dg))
       \<and> (\<forall>cols' rows'. (\<forall>k \<in> set delivered_columns. map_of cols' k = map_of cols k) \<longrightarrow>
             on_message (dg\<lparr>pool_query := \<lambda>vals. Inr (Obj cols' # rows')\<rparr>) = on_message dg)"
proof -
  note m = on_message_stored[OF assms]
  have e: "filter is_emit (map (location_update st now row) ss) = map (location_update st now row) ss"
    for st now row ss
    by (induction ss) (simp_all add: location_update_def)
  have 1: "filter is_emit (fst (on_message dg))
           = map (\<lambda>s. Emit s ''location-update''
                    (LocationUpdate ''new-location''
                       (Obj (map (\<lambda>k. (k, field (Obj cols) k)) delivered_columns))
                       (clock dg) (size_clients (service dg))))
                 (sockets (service dg))"
    unfolding m fst_conv filter.simps is_query.simps if_False e
    by (simp add: location_update_def frontendData_def delivered_columns_def)
  have 2: "on_message (dg\<lparr>pool_query := \<lambda>vals. Inr (Obj cols' # rows')\<rparr>) = on_message dg"
    if c: "\<forall>k \<in> set delivered_columns. map_of cols' k = map_of cols k" for cols' rows'
  proof -
    have "on_message (dg\<lparr>pool_query := \<lambda>vals. Inr (Obj cols' # rows')\<rparr>)
            = (Query (create_values d) # map (location_update (service dg) (clock dg) (Obj cols')) (sockets (service dg)), None)"
      using on_message_stored[of "dg\<lparr>pool_query := \<lambda>vals. Inr (Obj cols' # rows')\<rparr>" d cols' rows'] assms(1,2)
      by simp
    also have "\<dots> = on_message dg"
      by (simp add: m location_update_def frontendData_cong[OF c])
    finally show ?thesis .
  qed
  from 1 2 show ?thesis by blast
qed

theorem broadcast_projection_witness:
  "filter is_emit (fst (on_message (datagram_of (Inr report_ok) (Inr [stored_row]))))
     = [Emit ''a'' ''location-update''
          (LocationUpdate ''new-location''
             (Obj [(''id'', Num (Fin 7)), (''latitude'', Num (Fin 37.4219983)),
                   (''longitude'', Num (Fin (-122.084))),
                   (''timestamp_value'', Num (Fin 1700000000000)),
                   (''created_at'', Str ''2023-11-14T22:13:20.000Z'')])
             2000 2),
        Emit ''b'' ''location-update''
          (LocationUpdate ''new-location''
             (Obj [(''id'', Num (Fin 7)), (''latitude'', Num (Fin 37.4219983)),
                   (''longitude'', Num (Fin (-122.084))),
                   (''timestamp_value'', Num (Fin 1700000000000)),
                   (''created_at'', Str ''2023-11-14T22:13:20.000Z'')])
             2000 2)]
   \<and> on_message (datagram_of (Inr report_ok) (Inr [stored_row_other]))
       = on_message (datagram_of (Inr report_ok) (Inr [stored_row]))"
proof -
  have v: "validateLocationData report_ok = Inr True"
    by (simp add: validateLocationData_def requiredFields_def field_def report_ok_def)
  have p: "parsed (datagram_of (Inr report_ok) (Inr [stored_row])) = Inr report_ok"
    by (simp add: datagram_of_def)
  have r: "pool_query (datagram_of (Inr report_ok) (Inr [stored_row])) (create_values report_ok)
             = Inr (Obj [(''id'', Num (Fin 7)), (''latitude'', Num (Fin 37.4219983)),
                     (''longitude'', Num (Fin (-122.084))), (''timestamp_value'', Num (Fin 1700000000000)),
                     (''accuracy'', Num (Fin 5)), (''altitude'', Num (Fin 5)), (''speed'', Null),
                     (''provider'', Str ''fused''), (''created_at'', Str ''2023-11-14T22:13:20.000Z'')] # [])"
    by (simp add: datagram_of_def stored_row_def)
  have o: "(datagram_of (Inr report_ok) (Inr [stored_row]))
             \<lparr>pool_query := \<lambda>vals. Inr (Obj [(''id'', Num (Fin 7)), (''latitude'', Num (Fin 37.4219983)),
                     (''longitude'', Num (Fin (-122.084))), (''timestamp_value'', Num (Fin 1700000000000)),
                     (''accuracy'', Num (Fin 99)), (''altitude'', Null), (''speed'', Num (Fin 3)),
                     (''provider'', Str ''gps''), (''created_at'', Str ''2023-11-14T22:13:20.000Z'')] # [])\<rparr>
           = datagram_of (Inr report_ok) (Inr [stored_row_other])"
    by (simp add: datagram_of_def stored_row_other_def)
  note t = broadcast_carries_projection_only[OF p v r]
  have c: "\<forall>k \<in> set delivered_columns.
             map_of [(''id'', Num (Fin 7)), (''latitude'', Num (Fin 37.4219983)),
                     (''longitude'', Num (Fin (-122.084))), (''timestamp_value'', Num (Fin 1700000000000)),
                     (''accuracy'', Num (Fin 99)), (''altitude'', Null), (''speed'', Num (Fin 3)),
                     (''provider'', Str ''gps''), (''created_at'', Str ''2023-11-14T22:13:20.000Z'')] k
           = map_of [(''id'', Num (Fin 7)), (''latitude'', Num (Fin 37.4219983)),
                     (''longitude'', Num (Fin (-122.084))), (''timestamp_value'', Num (Fin 1700000000000)),
                     (''accuracy'', Num (Fin 5)), (''altitude'', Num (Fin 5)), (''speed'', Null),
                     (''provider'', Str ''fused''), (''created_at'', Str ''2023-11-14T22:13:20.000Z'')] k"
    by (simp add: delivered_columns_def)
  have a: "on_message (datagram_of (Inr report_ok) (Inr [stored_row_other]))
       = on_message (datagram_of (Inr report_ok) (Inr [stored_row]))"
    using t[THEN conjunct2, THEN spec, THEN spec, THEN mp, OF c, of "[]"]
    unfolding o .
  have b: "filter is_emit (fst (on_message (datagram_of (Inr report_ok) (Inr [stored_row]))))
     = [Emit ''a'' ''location-update''
          (LocationUpdate ''new-location''
             (Obj [(''id'', Num (Fin 7)), (''latitude'', Num (Fin 37.4219983)),
                   (''longitude'', Num (Fin (-122.084))),
                   (''timestamp_value'', Num (Fin 1700000000000)),
                   (''created_at'', Str ''2023-11-14T22:13:20.000Z'')])
             2000 2),
        Emit ''b'' ''location-update''
          (LocationUpdate ''new-location''
             (Obj [(''id'', Num (Fin 7)), (''latitude'', Num (Fin 37.4219983)),
                   (''longitude'', Num (Fin (-122.084))),
                   (''timestamp_value'', Num (Fin 1700000000000)),
                   (''created_at'', Str ''2023-11-14T22:13:20.000Z'')])
             2000 2)]"
    using t[THEN conjunct1]
    by (simp add: datagram_of_def two_sessions_def delivered_columns_def field_def size_clients_def)
  from a b show ?thesis by simp
qed

section \<open>The registry: keepalive and reaper\<close>

lemma inactive_iff_expired:
  "(inactiveMinutes now info > of_nat m) = expired now m (k, info)"
proof -
  have "(of_nat m < (of_int (now - lastActivity info) :: rat) / (1000 * 60))
          = ((of_int (int m * 60000) :: rat) < of_int (now - lastActivity info))"
    by (simp add: pos_less_divide_eq)
  also have "\<dots> = (int m * 60000 < now - lastActivity info)"
    by (rule of_int_less_iff)
  finally show ?thesis
    by (simp add: inactiveMinutes_def expired_def)
qed

text \<open>
  The quotient in doubles. Let \<open>fl\<close> round as the division of doubles does: it keeps
  the order, returns a whole threshold as it is, and errs by at most the fraction
  \<open>2^-53\<close> of its argument. Then for an age below \<open>2^53\<close> milliseconds the rounded
  quotient exceeds the threshold exactly when the age exceeds it.
\<close>

lemma rounded_quotient_agrees:
  fixes fl :: "rat \<Rightarrow> rat" and x :: int and n :: nat
  assumes mono: "\<And>a b. a \<le> b \<Longrightarrow> fl a \<le> fl b"
    and exact: "fl (of_nat n) = of_nat n"
    and err: "\<And>a. \<bar>fl a - a\<bar> \<le> \<bar>a\<bar> / 2 ^ 53"
    and x: "\<bar>x\<bar> < 2 ^ 53"
  shows "(fl (of_int x / (1000 * 60)) > of_nat n) = (x > int n * 60000)"
proof
  assume g: "fl (of_int x / (1000 * 60)) > of_nat n"
  show "x > int n * 60000"
  proof (rule ccontr)
    assume "\<not> x > int n * 60000"
    then have "x \<le> int n * 60000" by simp
    then have "(of_int x :: rat) \<le> of_int (int n * 60000)" by (simp only: of_int_le_iff)
    then have "(of_int x :: rat) / (1000 * 60) \<le> of_nat n" by (simp add: pos_divide_le_eq)
    then have "fl (of_int x / (1000 * 60)) \<le> fl (of_nat n)" by (rule mono)
    with exact g show False by simp
  qed
next
  assume "x > int n * 60000"
  then have x1: "int n * 60000 + 1 \<le> x" by simp
  then have xp: "0 < x" by linarith
  let ?q = "(of_int x :: rat) / (1000 * 60)"
  have qp: "0 < ?q" using xp by simp
  have "(of_int (int n * 60000 + 1) :: rat) \<le> of_int x" using x1 by (simp only: of_int_le_iff)
  then have a: "(of_nat n :: rat) * 60000 + 1 \<le> of_int x" by simp
  have "x < 2 ^ 53" using x xp by simp
  then have "(of_int x :: rat) < of_int (2 ^ 53)" by (simp only: of_int_less_iff)
  then have b: "(of_int x :: rat) < 2 ^ 53" by simp
  have "?q / 2 ^ 53 < 1 / 60000"
    using b by (simp add: field_simps)
  moreover have "of_nat n + 1 / 60000 \<le> ?q"
    using a by (simp add: field_simps)
  ultimately have c: "of_nat n < ?q - ?q / 2 ^ 53" by linarith
  have "\<bar>fl ?q - ?q\<bar> \<le> ?q / 2 ^ 53"
    using err[of ?q] qp by (simp only: abs_of_pos)
  then have "?q - ?q / 2 ^ 53 \<le> fl ?q" by linarith
  with c show "fl ?q > of_nat n" by linarith
qed

lemma map_fst_map_entry: "map fst (AList.map_entry k f xs) = map fst xs"
  by (induction xs) auto

text \<open>
  Claim C7. On a ping the server sets the last-activity time of the session to the
  current time when the session is in the map, leaves the service as it is when the
  session is unknown, touches no other session, and in both cases answers that session
  with one \<open>pong\<close> that carries the server time.
\<close>

theorem ping_touches_and_pongs:
  "snd (on_ping st now s) = [Emit s ''pong'' (PongPayload now)]
   \<and> sockets (fst (on_ping st now s)) = sockets st
   \<and> map fst (connectedClients (fst (on_ping st now s))) = map fst (connectedClients st)
   \<and> (map_of (connectedClients st) s = None \<longrightarrow> fst (on_ping st now s) = st)
   \<and> (\<forall>info. map_of (connectedClients st) s = Some info \<longrightarrow>
         map_of (connectedClients (fst (on_ping st now s))) s = Some (info\<lparr>lastActivity := now\<rparr>))
   \<and> (\<forall>s'. s' \<noteq> s \<longrightarrow>
         map_of (connectedClients (fst (on_ping st now s))) s' = map_of (connectedClients st) s')"
  by (simp add: on_ping_def Let_def map_fst_map_entry map_of_map_entry)

theorem ping_witness:
  "on_ping two_sessions 5000 ''b''
     = (\<lparr>connectedClients = [(''a'', \<lparr>connectedAt = 0, lastActivity = 0\<rparr>),
                             (''b'', \<lparr>connectedAt = 5, lastActivity = 5000\<rparr>)],
         sockets = [''a'', ''b'']\<rparr>,
        [Emit ''b'' ''pong'' (PongPayload 5000)])
   \<and> on_ping two_sessions 5000 ''gone'' = (two_sessions, [Emit ''gone'' ''pong'' (PongPayload 5000)])"
proof -
  have u: "map_of (connectedClients two_sessions) ''gone'' = None"
    by (simp add: two_sessions_def)
  have k: "map_of (connectedClients two_sessions) ''b'' = Some \<lparr>connectedAt = 5, lastActivity = 1000\<rparr>"
    by (simp add: two_sessions_def)
  note t = ping_touches_and_pongs[of two_sessions 5000 "''gone''"]
  have 1: "on_ping two_sessions 5000 ''gone'' = (two_sessions, [Emit ''gone'' ''pong'' (PongPayload 5000)])"
    using t u by (simp add: prod_eq_iff)
  have 2: "on_ping two_sessions 5000 ''b''
     = (\<lparr>connectedClients = [(''a'', \<lparr>connectedAt = 0, lastActivity = 0\<rparr>),
                             (''b'', \<lparr>connectedAt = 5, lastActivity = 5000\<rparr>)],
         sockets = [''a'', ''b'']\<rparr>,
        [Emit ''b'' ''pong'' (PongPayload 5000)])"
    by (simp add: on_ping_def two_sessions_def)
  from 1 2 show ?thesis by simp
qed

lemma delete_filter: "AList.delete k xs = filter (\<lambda>p. fst p \<noteq> k) xs"
  by (induction xs) auto

lemma removeAll_filter: "removeAll k xs = filter (\<lambda>x. x \<noteq> k) xs"
  by (induction xs) auto

lemma socket_disconnect_clients:
  "connectedClients (fst (socket_disconnect st k)) = AList.delete k (connectedClients st)"
  by (simp add: socket_disconnect_def on_disconnect_def Let_def)

lemma socket_disconnect_sockets:
  "sockets (fst (socket_disconnect st k)) = removeAll k (sockets st)"
  by (simp add: socket_disconnect_def on_disconnect_def Let_def)

lemma socket_disconnect_closes:
  "filter is_close (snd (socket_disconnect st k)) = [Close k]"
proof -
  have "filter is_close (io_emit st' n p) = []" for st' n p
    by (induction "sockets st'") (auto simp: io_emit_def filter_empty_conv)
  then show ?thesis
    by (simp add: socket_disconnect_def on_disconnect_def Let_def)
qed

lemma cleanup_loop_Cons:
  "cleanup_loop now m ((k, info) # es) (st, effs, c) =
     (if expired now m (k, info)
      then cleanup_loop now m es (fst (reap_one st k), effs @ snd (reap_one st k), c + 1)
      else cleanup_loop now m es (st, effs, c))"
  by (simp add: inactive_iff_expired[where k=k] reap_one_def Let_def split: prod.splits)

lemma reap_one_open:
  "k \<in> set (sockets st) \<Longrightarrow>
     reap_one st k =
       ((fst (socket_disconnect st k))\<lparr>connectedClients :=
            AList.delete k (connectedClients (fst (socket_disconnect st k)))\<rparr>,
        snd (socket_disconnect st k))"
  by (simp add: reap_one_def case_prod_beta)

lemma reap_one_closed:
  "k \<notin> set (sockets st) \<Longrightarrow>
     reap_one st k = (st\<lparr>connectedClients := AList.delete k (connectedClients st)\<rparr>, [])"
  by (simp add: reap_one_def)

lemma reap_one_clients:
  "connectedClients (fst (reap_one st k)) = filter (\<lambda>p. fst p \<noteq> k) (connectedClients st)"
proof (cases "k \<in> set (sockets st)")
  case True
  then show ?thesis
    by (simp add: reap_one_open socket_disconnect_clients AList.delete_idem delete_filter)
next
  case False
  then show ?thesis by (simp add: reap_one_closed delete_filter)
qed

lemma reap_one_sockets:
  "sockets (fst (reap_one st k)) = filter (\<lambda>s. s \<noteq> k) (sockets st)"
proof (cases "k \<in> set (sockets st)")
  case True
  then show ?thesis
    by (simp add: reap_one_open socket_disconnect_sockets removeAll_filter)
next
  case False
  then have "filter (\<lambda>s. s \<noteq> k) (sockets st) = sockets st"
    by (simp add: filter_id_conv) blast
  with False show ?thesis by (simp add: reap_one_closed)
qed

lemma reap_one_closes:
  "filter is_close (snd (reap_one st k)) = (if k \<in> set (sockets st) then [Close k] else [])"
  by (simp add: reap_one_open reap_one_closed socket_disconnect_closes)

lemma expired_keys_simps:
  "expired_keys now m [] = []"
  "expired_keys now m ((k, info) # es) =
     (if expired now m (k, info) then k # expired_keys now m es else expired_keys now m es)"
  by (simp_all add: expired_keys_def)

lemma cleanup_loop_clients:
  "connectedClients (fst (cleanup_loop now m es (st, effs, c)))
     = filter (\<lambda>p. fst p \<notin> set (expired_keys now m es)) (connectedClients st)"
proof (induction es arbitrary: st effs c)
  case Nil
  show ?case by (simp add: expired_keys_simps)
next
  case (Cons e es)
  obtain k info where e: "e = (k, info)" by (cases e)
  show ?case
  proof (cases "expired now m (k, info)")
    case True
    have "filter (\<lambda>p. fst p \<notin> set (expired_keys now m es)) (filter (\<lambda>p. fst p \<noteq> k) (connectedClients st))
            = filter (\<lambda>p. fst p \<notin> set (k # expired_keys now m es)) (connectedClients st)"
      by (simp add: conj_commute)
    with True show ?thesis
      unfolding e cleanup_loop_Cons
      by (simp add: Cons.IH reap_one_clients expired_keys_simps del: cleanup_loop.simps)
  next
    case False
    then show ?thesis
      unfolding e cleanup_loop_Cons
      by (simp add: Cons.IH expired_keys_simps del: cleanup_loop.simps)
  qed
qed

lemma cleanup_loop_sockets:
  "sockets (fst (cleanup_loop now m es (st, effs, c)))
     = filter (\<lambda>s. s \<notin> set (expired_keys now m es)) (sockets st)"
proof (induction es arbitrary: st effs c)
  case Nil
  show ?case by (simp add: expired_keys_simps)
next
  case (Cons e es)
  obtain k info where e: "e = (k, info)" by (cases e)
  show ?case
  proof (cases "expired now m (k, info)")
    case True
    have "filter (\<lambda>s. s \<notin> set (expired_keys now m es)) (filter (\<lambda>s. s \<noteq> k) (sockets st))
            = filter (\<lambda>s. s \<notin> set (k # expired_keys now m es)) (sockets st)"
      by (simp add: conj_commute)
    with True show ?thesis
      unfolding e cleanup_loop_Cons
      by (simp add: Cons.IH reap_one_sockets expired_keys_simps del: cleanup_loop.simps)
  next
    case False
    then show ?thesis
      unfolding e cleanup_loop_Cons
      by (simp add: Cons.IH expired_keys_simps del: cleanup_loop.simps)
  qed
qed

lemma cleanup_loop_cleaned:
  "snd (snd (cleanup_loop now m es (st, effs, c))) = c + length (expired_keys now m es)"
proof (induction es arbitrary: st effs c)
  case Nil
  show ?case by (simp add: expired_keys_simps)
next
  case (Cons e es)
  obtain k info where e: "e = (k, info)" by (cases e)
  show ?case
    unfolding e cleanup_loop_Cons
    by (simp add: Cons.IH expired_keys_simps del: cleanup_loop.simps)
qed

lemma expired_keys_subset: "set (expired_keys now m es) \<subseteq> fst ` set es"
  by (auto simp: expired_keys_def)

lemma cleanup_loop_closes:
  assumes "distinct (map fst es)"
  shows "filter is_close (fst (snd (cleanup_loop now m es (st, effs, c))))
           = filter is_close effs
             @ map Close (filter (\<lambda>k. k \<in> set (sockets st)) (expired_keys now m es))"
  using assms
proof (induction es arbitrary: st effs c)
  case Nil
  show ?case by (simp add: expired_keys_simps)
next
  case (Cons e es)
  obtain k info where e: "e = (k, info)" by (cases e)
  from Cons.prems have d: "distinct (map fst es)" and k: "k \<notin> fst ` set es"
    by (simp_all add: e)
  note IH = Cons.IH[OF d]
  show ?case
  proof (cases "expired now m (k, info)")
    case True
    have "k \<notin> set (expired_keys now m es)"
      using k expired_keys_subset by blast
    then have "filter (\<lambda>x. x \<in> set (filter (\<lambda>s. s \<noteq> k) (sockets st))) (expired_keys now m es)
                 = filter (\<lambda>x. x \<in> set (sockets st)) (expired_keys now m es)"
      by (intro filter_cong) auto
    with True show ?thesis
      unfolding e cleanup_loop_Cons
      by (simp add: IH reap_one_sockets reap_one_closes expired_keys_simps del: cleanup_loop.simps)
  next
    case False
    then show ?thesis
      unfolding e cleanup_loop_Cons
      by (simp add: IH expired_keys_simps del: cleanup_loop.simps)
  qed
qed

lemma cleanup_loop_none_expired:
  assumes "\<forall>e \<in> set es. \<not> expired now m e"
  shows "cleanup_loop now m es acc = acc"
  using assms
proof (induction es)
  case Nil
  show ?case by simp
next
  case (Cons e es)
  obtain k info where e: "e = (k, info)" by (cases e)
  obtain st effs c where acc: "acc = (st, effs, c)" by (cases acc)
  from Cons.prems have "\<not> expired now m (k, info)" and "\<forall>e \<in> set es. \<not> expired now m e"
    by (simp_all add: e)
  then show ?case
    unfolding e acc cleanup_loop_Cons
    using Cons.IH acc by simp
qed

lemma filter_not_expired_keys:
  assumes "distinct (map fst es)"
  shows "filter (\<lambda>p. fst p \<notin> set (expired_keys now m es)) es = filter (\<lambda>p. \<not> expired now m p) es"
proof (rule filter_cong[OF refl])
  fix p assume p: "p \<in> set es"
  have "fst p \<in> set (expired_keys now m es) \<longleftrightarrow> expired now m p"
  proof
    assume "fst p \<in> set (expired_keys now m es)"
    then obtain q where q: "q \<in> set es" "expired now m q" "fst q = fst p"
      by (auto simp: expired_keys_def)
    with p assms have "q = p"
      by (metis eq_key_imp_eq_value prod.collapse)
    with q show "expired now m p" by simp
  next
    assume "expired now m p"
    with p show "fst p \<in> set (expired_keys now m es)"
      by (auto simp: expired_keys_def)
  qed
  then show "(fst p \<notin> set (expired_keys now m es)) = (\<not> expired now m p)" by simp
qed

lemma cleanup_second_run:
  assumes "distinct (map fst (connectedClients st))"
    and "\<forall>e \<in> set (connectedClients st). \<not> expired now m e \<longrightarrow> \<not> expired now' m e"
  shows "cleanupInactiveConnections (fst (cleanupInactiveConnections st now m)) now' m
           = (fst (cleanupInactiveConnections st now m), [], 0)"
proof -
  have c: "connectedClients (fst (cleanupInactiveConnections st now m))
             = filter (\<lambda>e. \<not> expired now m e) (connectedClients st)"
    by (simp add: cleanupInactiveConnections_def cleanup_loop_clients filter_not_expired_keys[OF assms(1)])
  have "\<forall>e \<in> set (connectedClients (fst (cleanupInactiveConnections st now m))). \<not> expired now' m e"
    using assms(2) by (simp add: c)
  then show ?thesis
    by (simp add: cleanupInactiveConnections_def[of "fst (cleanupInactiveConnections st now m)"]
                  cleanup_loop_none_expired)
qed

text \<open>
  Claim C6. With \<open>now\<close> the clock read by the run and \<open>m\<close> the threshold in whole
  minutes, on a map with distinct keys and ages that a double holds exactly, the reaper
  keeps exactly the sessions whose last-activity age does not exceed the threshold and
  removes the others, \<open>cleaned\<close> counts them, and it closes the connection of each
  removed session that socket.io still holds. Run again on the result at the same
  instant it does nothing: same service, no effect, count 0; and so at any later instant
  at which no surviving session has exceeded the threshold.
\<close>

theorem reaper_exact_and_idempotent:
  assumes "distinct (map fst (connectedClients st))" and "exact_ages now st"
  shows "connectedClients (fst (cleanupInactiveConnections st now m))
           = filter (\<lambda>e. \<not> expired now m e) (connectedClients st)
       \<and> filter is_close (fst (snd (cleanupInactiveConnections st now m)))
           = map Close (filter (\<lambda>k. k \<in> set (sockets st)) (expired_keys now m (connectedClients st)))
       \<and> sockets (fst (cleanupInactiveConnections st now m))
           = filter (\<lambda>s. s \<notin> set (expired_keys now m (connectedClients st))) (sockets st)
       \<and> snd (snd (cleanupInactiveConnections st now m))
           = length (filter (expired now m) (connectedClients st))
       \<and> cleanupInactiveConnections (fst (cleanupInactiveConnections st now m)) now m
           = (fst (cleanupInactiveConnections st now m), [], 0)
       \<and> (\<forall>now'. exact_ages now' st
               \<and> (\<forall>e \<in> set (connectedClients st). \<not> expired now m e \<longrightarrow> \<not> expired now' m e) \<longrightarrow>
             cleanupInactiveConnections (fst (cleanupInactiveConnections st now m)) now' m
               = (fst (cleanupInactiveConnections st now m), [], 0))"
proof -
  note d = assms(1)
  have 1: "connectedClients (fst (cleanupInactiveConnections st now m))
           = filter (\<lambda>e. \<not> expired now m e) (connectedClients st)"
    by (simp add: cleanupInactiveConnections_def cleanup_loop_clients filter_not_expired_keys[OF d])
  have 2: "filter is_close (fst (snd (cleanupInactiveConnections st now m)))
           = map Close (filter (\<lambda>k. k \<in> set (sockets st)) (expired_keys now m (connectedClients st)))"
    by (simp add: cleanupInactiveConnections_def cleanup_loop_closes[OF d])
  have 3: "sockets (fst (cleanupInactiveConnections st now m))
           = filter (\<lambda>s. s \<notin> set (expired_keys now m (connectedClients st))) (sockets st)"
    by (simp add: cleanupInactiveConnections_def cleanup_loop_sockets)
  have 4: "snd (snd (cleanupInactiveConnections st now m))
           = length (filter (expired now m) (connectedClients st))"
    by (simp add: cleanupInactiveConnections_def cleanup_loop_cleaned expired_keys_def)
  have 5: "cleanupInactiveConnections (fst (cleanupInactiveConnections st now m)) now m
           = (fst (cleanupInactiveConnections st now m), [], 0)"
    using cleanup_second_run[OF d, of now m now] by simp
  have 6: "\<forall>now'. exact_ages now' st
               \<and> (\<forall>e \<in> set (connectedClients st). \<not> expired now m e \<longrightarrow> \<not> expired now' m e) \<longrightarrow>
             cleanupInactiveConnections (fst (cleanupInactiveConnections st now m)) now' m
               = (fst (cleanupInactiveConnections st now m), [], 0)"
    using cleanup_second_run[OF d] by blast
  from 1 2 3 4 5 6 show ?thesis by blast
qed

theorem reaper_witness:
  "distinct (map fst (connectedClients three_sessions))
   \<and> exact_ages 1800001 three_sessions
   \<and> cleanupInactiveConnections three_sessions 1800001 30
       = (\<lparr>connectedClients = [(''b'', \<lparr>connectedAt = 5, lastActivity = 1000\<rparr>)], sockets = [''b'']\<rparr>,
          [Close ''a'', Emit ''b'' ''client-count-update'' (ClientCountUpdate 2)], 2)
   \<and> cleanupInactiveConnections
         \<lparr>connectedClients = [(''b'', \<lparr>connectedAt = 5, lastActivity = 1000\<rparr>)], sockets = [''b'']\<rparr>
         1800001 30
       = (\<lparr>connectedClients = [(''b'', \<lparr>connectedAt = 5, lastActivity = 1000\<rparr>)], sockets = [''b'']\<rparr>, [], 0)"
proof -
  have d: "distinct (map fst (connectedClients three_sessions))"
    by (simp add: three_sessions_def)
  have x: "exact_ages 1800001 three_sessions"
    by (simp add: exact_ages_def three_sessions_def)
  have r: "cleanupInactiveConnections three_sessions 1800001 30
       = (\<lparr>connectedClients = [(''b'', \<lparr>connectedAt = 5, lastActivity = 1000\<rparr>)], sockets = [''b'']\<rparr>,
          [Close ''a'', Emit ''b'' ''client-count-update'' (ClientCountUpdate 2)], 2)"
    by (simp add: cleanupInactiveConnections_def three_sessions_def inactiveMinutes_def
                  socket_disconnect_def on_disconnect_def io_emit_def size_clients_def Let_def)
  have "cleanupInactiveConnections (fst (cleanupInactiveConnections three_sessions 1800001 30)) 1800001 30
          = (fst (cleanupInactiveConnections three_sessions 1800001 30), [], 0)"
    using reaper_exact_and_idempotent[OF d x, of 30] by blast
  then have "cleanupInactiveConnections
         \<lparr>connectedClients = [(''b'', \<lparr>connectedAt = 5, lastActivity = 1000\<rparr>)], sockets = [''b'']\<rparr>
         1800001 30
       = (\<lparr>connectedClients = [(''b'', \<lparr>connectedAt = 5, lastActivity = 1000\<rparr>)], sockets = [''b'']\<rparr>, [], 0)"
    unfolding r fst_conv .
  with d x r show ?thesis by blast
qed

text \<open>
  Each handler of the service keeps its map and the registry of socket.io on the same
  sessions.
\<close>

lemma keys_filter_notin: "fst ` set (filter (\<lambda>p. fst p \<notin> K) xs) = fst ` set xs - K"
  by auto

lemma set_filter_notin: "set (filter (\<lambda>s. s \<notin> K) ss) = set ss - K"
  by auto

lemma registry_consistent_connection:
  "registry_consistent st \<Longrightarrow> registry_consistent (fst (on_connection st now s))"
  by (simp add: registry_consistent_def on_connection_def Let_def AList.dom_update)

lemma registry_consistent_disconnect:
  "registry_consistent st \<Longrightarrow> registry_consistent (fst (on_disconnect st s))"
  by (auto simp: registry_consistent_def on_disconnect_def Let_def delete_filter)

lemma registry_consistent_ping:
  "registry_consistent st \<Longrightarrow> registry_consistent (fst (on_ping st now s))"
  by (simp add: registry_consistent_def on_ping_def Let_def AList.dom_map_entry)

lemma registry_consistent_cleanup:
  "registry_consistent st \<Longrightarrow> registry_consistent (fst (cleanupInactiveConnections st now m))"
  unfolding registry_consistent_def cleanupInactiveConnections_def cleanup_loop_clients cleanup_loop_sockets
    keys_filter_notin set_filter_notin
  by simp

text \<open>
  The clock matters: a session that has not yet exceeded the threshold when the reaper
  runs is removed by a later run, once its age has passed it.
\<close>

lemma reaper_later_run:
  "fst (cleanupInactiveConnections
          (fst (cleanupInactiveConnections three_sessions 1800001 30)) 1801001 30)
     = \<lparr>connectedClients = [], sockets = []\<rparr>"
  by (simp add: cleanupInactiveConnections_def three_sessions_def inactiveMinutes_def
                socket_disconnect_def on_disconnect_def io_emit_def size_clients_def Let_def)

section \<open>The client hook\<close>

text \<open>
  Claim C10. \<open>emit\<close> hands the event to the socket exactly when there is a socket and
  its \<open>connected\<close> flag is set, and it returns \<open>true\<close> exactly when it has done so.
\<close>

theorem emit_sends_iff_connected:
  "emit r eventName data
     = (if socket_connected r then ([SocketEmit eventName data], True) else ([], False))
   \<and> snd (emit r eventName data) = (fst (emit r eventName data) \<noteq> [])"
  by (simp add: emit_def socket_connected_def split: option.splits)

lemma run_events_snoc:
  "run_events h (evs @ [(now, ev)]) =
     (fst (socket_handler (fst (run_events h evs)) now ev),
      snd (run_events h evs) @ snd (socket_handler (fst (run_events h evs)) now ev))"
proof (induction evs arbitrary: h)
  case Nil
  show ?case by (simp split: prod.splits)
next
  case (Cons x evs)
  obtain t e where x: "x = (t, e)" by (cases x)
  show ?case
    unfolding x by (simp add: Cons.IH split: prod.splits)
qed

lemma run_events_Cons:
  "run_events h ((t, ev) # evs) =
     (fst (run_events (fst (socket_handler h t ev)) evs),
      snd (socket_handler h t ev) @ snd (run_events (fst (socket_handler h t ev)) evs))"
  by (simp split: prod.splits)

lemma run_failures_effects:
  "snd (run_events h (replicate k (0, EvConnectError message))) = []"
proof (induction k arbitrary: h)
  case 0
  show ?case by simp
next
  case (Suc k)
  show ?case
    by (simp add: run_events_Cons Suc.IH del: run_events.simps)
qed

lemma run_failures_status:
  "connectionStatus (fst (run_events h (replicate (Suc k) (0, EvConnectError message)))) = ''error''"
proof -
  have "replicate (Suc k) (0::time, EvConnectError message)
          = replicate k (0, EvConnectError message) @ [(0, EvConnectError message)]"
    by (simp add: replicate_append_same)
  then show ?thesis
    by (simp only: run_events_snoc fst_conv socket_handler.simps) simp
qed

lemma run_drop_then_failures:
  "run_events h (drop_then_failures reason message k)
     = (fst (run_events (fst (socket_handler h 0 (EvDisconnect reason)))
               (replicate k (0, EvConnectError message))),
        if reason = ''io server disconnect'' then [SocketConnect] else [])"
  by (simp add: drop_then_failures_def run_events_Cons run_failures_effects del: run_events.simps)

text \<open>All that a drop followed by failed attempts delivers can reach the socket.\<close>

lemma drop_then_failures_receivable:
  "\<forall>(t, ev) \<in> set (drop_then_failures reason message k). receivable ev"
  by (auto simp: drop_then_failures_def)

text \<open>
  No event that reaches the socket sets the status \<open>connecting\<close>: the one handler that
  does is registered for \<open>reconnect_attempt\<close>.
\<close>

lemma receivable_never_connecting:
  assumes "receivable ev" and "connectionStatus h \<noteq> ''connecting''"
  shows "connectionStatus (fst (socket_handler h now ev)) \<noteq> ''connecting''"
  using assms by (cases ev) simp_all

text \<open>
  Claim C4, as the hook implements it on the events that reach the socket. A transport
  drop leaves the status \<open>disconnected\<close>. Each failed attempt to reconnect leaves it
  \<open>error\<close>, from the first one on, and so it is \<open>error\<close> when all the configured
  attempts have failed. A connect after a drop and any number of failed attempts leaves
  the hook connected with the error cleared, and the request for the initial data is
  sent exactly once.
\<close>

theorem reconnection_as_coded:
  "connectionStatus (fst (run_events h (drop_then_failures reason message 0))) = ''disconnected''
   \<and> connectionStatus (fst (run_events h (drop_then_failures reason message (Suc k)))) = ''error''
   \<and> connectionStatus (fst (run_events h (drop_then_failures reason message reconnectionAttempts)))
       = ''error''
   \<and> fst (run_events h (drop_then_failures reason message k @ [(now, EvConnect)]))
       = \<lparr>isConnected = True, connectionStatus = ''connected'', lastUpdate = Some now,
          error = Null, clientCount = clientCount h\<rparr>
   \<and> snd (run_events h (drop_then_failures reason message k @ [(now, EvConnect)]))
       = (if reason = ''io server disconnect'' then [SocketConnect] else [])
         @ [SocketEmit ''request-initial-data'' Undefined]
   \<and> initial_data_requests (snd (run_events h (drop_then_failures reason message k @ [(now, EvConnect)])))
       = 1"
proof -
  have 1: "connectionStatus (fst (run_events h (drop_then_failures reason message 0))) = ''disconnected''"
    by (simp add: drop_then_failures_def)
  have 2: "connectionStatus (fst (run_events h (drop_then_failures reason message (Suc k)))) = ''error''"
    for k
    unfolding run_drop_then_failures fst_conv by (rule run_failures_status)
  have 3: "connectionStatus (fst (run_events h (drop_then_failures reason message reconnectionAttempts)))
       = ''error''"
    using 2[of 4] by (simp add: reconnectionAttempts_def eval_nat_numeral)
  have c: "clientCount (fst (run_events h' (replicate k (0, EvConnectError message)))) = clientCount h'"
    for h'
  proof (induction k arbitrary: h')
    case 0
    show ?case by simp
  next
    case (Suc k)
    show ?case
      by (simp add: run_events_Cons Suc.IH del: run_events.simps)
  qed
  have 4: "fst (run_events h (drop_then_failures reason message k @ [(now, EvConnect)]))
       = \<lparr>isConnected = True, connectionStatus = ''connected'', lastUpdate = Some now,
          error = Null, clientCount = clientCount h\<rparr>"
    by (simp add: run_events_snoc run_drop_then_failures c)
  have 5: "snd (run_events h (drop_then_failures reason message k @ [(now, EvConnect)]))
       = (if reason = ''io server disconnect'' then [SocketConnect] else [])
         @ [SocketEmit ''request-initial-data'' Undefined]"
    by (simp add: run_events_snoc run_drop_then_failures)
  have 6: "initial_data_requests (snd (run_events h (drop_then_failures reason message k @ [(now, EvConnect)])))
       = 1"
    unfolding 5 by (simp add: initial_data_requests_def)
  from 1 2 3 4 5 6 show ?thesis by blast
qed

text \<open>
  Claim C4 as stated fails on events that reach the socket: a transport drop leaves the
  status \<open>disconnected\<close>, not \<open>connecting\<close>, and the status is \<open>error\<close> after the first
  failed attempt of the five configured.
\<close>

theorem reconnection_counterexample:
  "connectionStatus (fst (socket_handler connected_state 10 (EvDisconnect ''transport close'')))
     \<noteq> ''connecting''
   \<and> connectionStatus (fst (run_events connected_state
         [(10, EvDisconnect ''transport close''), (20, EvConnectError (Str ''websocket error''))]))
     = ''error''"
  by (simp add: connected_state_def)

lemma filter_key_single:
  assumes "map snd (filter (\<lambda>c. fst c = e) cs) = [h]"
  shows "filter (\<lambda>c. fst c = e) cs = [(e, h)]"
proof -
  from assms obtain c where c: "filter (\<lambda>c. fst c = e) cs = [c]" "snd c = h"
    by (cases "filter (\<lambda>c. fst c = e) cs") auto
  then have "c \<in> set (filter (\<lambda>c. fst c = e) cs)" by simp
  then have "fst c = e" by simp
  with c show ?thesis by (cases c) simp
qed

text \<open>
  Where the map tracks the socket, a subscription leaves the new listener as the only
  one for the name, and the map still tracks the socket.
\<close>

lemma on_replaces:
  assumes "socketRef r = Some sock" and "tracked r e"
  shows "listeners_of (fst (on r e h)) e = [h] \<and> tracked (fst (on r e h)) e"
proof (cases "map_of (listenersRef r) e")
  case None
  with assms have "filter (\<lambda>c. fst c = e) (callbacks sock) = []"
    by (simp add: tracked_def listeners_of_def)
  with assms(1) None show ?thesis
    by (simp add: on_def socket_on_def tracked_def listeners_of_def AList.update_conv')
next
  case (Some old)
  with assms have "map snd (filter (\<lambda>c. fst c = e) (callbacks sock)) = [old]"
    by (simp add: tracked_def listeners_of_def)
  then have "filter (\<lambda>c. fst c = e) (callbacks sock) = [(e, old)]"
    by (rule filter_key_single)
  then have "filter (\<lambda>c. fst c = e) (remove1 (e, old) (callbacks sock)) = []"
    by (simp add: filter_remove1)
  with assms(1) Some show ?thesis
    by (simp add: on_def socket_on_def socket_off_def tracked_def listeners_of_def AList.update_conv')
qed

text \<open>
  Where the map tracks the socket and holds the listener of an unsubscribe function,
  calling the function removes the listener, and calling it again changes nothing.
\<close>

lemma unsubscribe_twice:
  assumes "socketRef r = Some sock" and "tracked r e" and "map_of (listenersRef r) e = Some h"
  shows "listeners_of (call_unsubscribe r (Unsubscribe e h)) e = []
       \<and> call_unsubscribe (call_unsubscribe r (Unsubscribe e h)) (Unsubscribe e h)
           = call_unsubscribe r (Unsubscribe e h)"
proof -
  from assms have "map snd (filter (\<lambda>c. fst c = e) (callbacks sock)) = [h]"
    by (simp add: tracked_def listeners_of_def)
  then have "filter (\<lambda>c. fst c = e) (callbacks sock) = [(e, h)]"
    by (rule filter_key_single)
  then have f: "filter (\<lambda>c. fst c = e) (remove1 (e, h) (callbacks sock)) = []"
    by (simp add: filter_remove1)
  then have "(e, h) \<notin> set (remove1 (e, h) (callbacks sock))"
    by (auto simp: filter_empty_conv)
  then have "remove1 (e, h) (remove1 (e, h) (callbacks sock)) = remove1 (e, h) (callbacks sock)"
    by (rule remove1_idem)
  with assms(1) f show ?thesis
    by (simp add: socket_off_def listeners_of_def AList.delete_idem)
qed

text \<open>
  Claim C5 at the input where the hook departs from it. After listener 2 has replaced
  listener 1, the unsubscribe function of listener 1 is not a no-op: it leaves listener 2
  on the socket but deletes its entry from the map, so the next subscription does not
  remove it and the socket then holds two listeners, 2 and 3, for the one event name.
  \<open>off\<close> of the same hook, given listener 1, compares the entry first and changes nothing.
\<close>

theorem stale_unsubscribe_drops_replacement:
  "(case stale_unsubscribe of (r2, r3, r4) \<Rightarrow>
      listeners_of r2 ''location-update'' = [2] \<and> listenersRef r2 = [(''location-update'', 2)]
      \<and> listeners_of r3 ''location-update'' = [2] \<and> listenersRef r3 = []
      \<and> listeners_of r4 ''location-update'' = [2, 3]
      \<and> off r2 ''location-update'' 1 = r2)"
  by (simp add: stale_unsubscribe_def fresh_refs_def on_def off_def socket_on_def socket_off_def
                listeners_of_def)

end
